theory Spec2Isabelle
  imports Main "HOL-Library.Word" "HOL-Library.Multiset"
begin

section \<open>Errors (errors/index.ts)\<close>

text \<open>
  Every exception class of the library is a constructor. The message of a
  \<open>ValidationError\<close> is kept as a tag naming the throw site, since two throw
  sites of one function must be told apart. \<open>PlainError\<close> is the built-in
  \<open>Error\<close> thrown by \<open>startSigning\<close>; \<open>BindingError\<close> is whatever the
  native module \<open>multi-party-eddsa-node\<close> throws.
\<close>

datatype validation_reason =
    ThresholdBelowTwo
  | ThresholdAboveTotal
  | TooFewSigners
  | TooManySigners
  | NoSharedKeys

datatype error =
    ValidationError validation_reason
  | SessionError
  | ServiceError
  | PartyError
  | StateError
  | PlainError
  | BindingError

section \<open>Byte containers and serialization (utils/serialization)\<close>

text \<open>
  \<open>bytes: number[] | Buffer\<close>. A Buffer holds octets; a number array holds
  numbers, modelled as naturals (the non-negative integers a byte array can
  hold). \<open>Buffer.from(array)\<close> keeps each entry modulo 256, which is what
  \<open>of_nat\<close> into \<open>8 word\<close> does; \<open>Array.from(buffer)\<close> reads each octet back
  with \<open>unat\<close>.
\<close>

datatype byte_data = BufferOf "8 word list" | ArrayOf "nat list"

record SerializableBigInt =
  bytes :: byte_data

type_synonym PublicKey = SerializableBigInt
type_synonym SecretShare = SerializableBigInt

definition Buffer_from_array :: "nat list \<Rightarrow> 8 word list" where
  "Buffer_from_array a = map of_nat a"

definition Array_from_buffer :: "8 word list \<Rightarrow> nat list" where
  "Array_from_buffer b = map unat b"

text \<open>
  The guard \<open>if (!obj || obj.bytes === undefined) return obj\<close> of the three
  functions below cannot fire on a value of the declared type, whose
  \<open>bytes\<close> field is mandatory.
\<close>

definition normalizeBytesForRust :: "SerializableBigInt \<Rightarrow> SerializableBigInt" where
  "normalizeBytesForRust obj =
     \<lparr>bytes = (case bytes obj of
                 ArrayOf a \<Rightarrow> ArrayOf a
               | BufferOf b \<Rightarrow> ArrayOf (Array_from_buffer b))\<rparr>"

definition normalizeBytesToBuffer :: "SerializableBigInt \<Rightarrow> SerializableBigInt" where
  "normalizeBytesToBuffer obj =
     \<lparr>bytes = (case bytes obj of
                 BufferOf b \<Rightarrow> BufferOf b
               | ArrayOf a \<Rightarrow> BufferOf (Buffer_from_array a))\<rparr>"

definition serializeForHttp :: "SerializableBigInt \<Rightarrow> SerializableBigInt" where
  "serializeForHttp obj =
     \<lparr>bytes = (case bytes obj of
                 ArrayOf a \<Rightarrow> ArrayOf a
               | BufferOf b \<Rightarrow> ArrayOf (Array_from_buffer b))\<rparr>"

definition serialize2DArrayForHttp ::
    "SecretShare list list \<Rightarrow> SerializableBigInt list list" where
  "serialize2DArrayForHttp arr = map (\<lambda>row. map serializeForHttp row) arr"

text \<open>The octets a container denotes, whichever representation holds them.\<close>

definition octets :: "byte_data \<Rightarrow> 8 word list" where
  "octets d = (case d of BufferOf b \<Rightarrow> b | ArrayOf a \<Rightarrow> Buffer_from_array a)"

text \<open>\<open>Buffer.from(x).toString("hex")\<close>: two lower-case hex digits per octet.\<close>

definition hexDigit :: "nat \<Rightarrow> char" where
  "hexDigit n = ''0123456789abcdef'' ! (n mod 16)"

definition toHex :: "byte_data \<Rightarrow> string" where
  "toHex d = concat (map (\<lambda>w. [hexDigit (unat w div 16), hexDigit (unat w mod 16)]) (octets d))"

subsection \<open>Messages\<close>

text \<open>
  \<open>message: Buffer | number[] | string\<close>. A string is a list of characters
  with code points 0 to 255; \<open>Buffer.from(string)\<close> encodes it in UTF-8, one
  octet below 128 and two octets from 128 on.
\<close>

datatype message_input =
    MsgBuffer "8 word list"
  | MsgArray "nat list"
  | MsgString string

definition utf8_char :: "char \<Rightarrow> 8 word list" where
  "utf8_char c =
     (let n = (of_char c :: nat)
      in if n < 128 then [of_nat n]
         else [of_nat (192 + n div 64), of_nat (128 + n mod 64)])"

definition Buffer_from_string :: "string \<Rightarrow> 8 word list" where
  "Buffer_from_string s = concat (map utf8_char s)"

text \<open>
  \<open>message || 'default'\<close>: the empty string is falsy, every other string is
  truthy.
\<close>

definition normalizeMessage :: "message_input \<Rightarrow> 8 word list" where
  "normalizeMessage message =
     (case message of
        MsgBuffer b \<Rightarrow> b
      | MsgArray a \<Rightarrow> Buffer_from_array a
      | MsgString s \<Rightarrow> Buffer_from_string (if s = [] then ''default'' else s))"

definition messageToArray :: "message_input \<Rightarrow> nat list" where
  "messageToArray message =
     (case message of
        MsgArray a \<Rightarrow> a
      | MsgBuffer b \<Rightarrow> Array_from_buffer b
      | MsgString s \<Rightarrow>
          Array_from_buffer (Buffer_from_string (if s = [] then ''default'' else s)))"

section \<open>Validation (utils/validation)\<close>

text \<open>
  Thresholds and party counts are \<open>number\<close>s of the caller, modelled as
  integers; the optional \<open>totalParties\<close> is an option.
\<close>

definition validateThreshold :: "int \<Rightarrow> int option \<Rightarrow> error + unit" where
  "validateThreshold threshold totalParties =
     (if threshold < 2 then Inl (ValidationError ThresholdBelowTwo)
      else (case totalParties of
              None \<Rightarrow> Inr ()
            | Some n \<Rightarrow>
                if threshold > n then Inl (ValidationError ThresholdAboveTotal)
                else Inr ()))"

definition validateSigningParties :: "int \<Rightarrow> int \<Rightarrow> int option \<Rightarrow> error + unit" where
  "validateSigningParties signingPartiesCount threshold totalParties =
     (if signingPartiesCount < threshold then Inl (ValidationError TooFewSigners)
      else (case totalParties of
              None \<Rightarrow> Inr ()
            | Some n \<Rightarrow>
                if signingPartiesCount > n then Inl (ValidationError TooManySigners)
                else Inr ()))"

section \<open>Protocol data (types/index.ts)\<close>

text \<open>
  Fields whose source name is a single letter carry the name of their
  interface as a prefix (\<open>sk_y\<close> is \<open>SharedKey.y\<close>, \<open>sig_r\<close> is
  \<open>Signature.r\<close>), so that they do not capture variables. Optional fields
  are options.
\<close>

record VSSScheme =
  share_count :: "nat option"
  shareCount :: "nat option"
  vss_commitments :: "SerializableBigInt list option"

record SharedKey =
  sk_y :: SerializableBigInt
  sk_xI :: SerializableBigInt
  sk_x_i :: "SerializableBigInt option"
  sk_prefix :: "SerializableBigInt option"

text \<open>
  \<open>EphemeralSharedKey.r\<close> is declared mandatory, but the HTTP form built
  by \<open>serializeEphSharedKey\<close> carries only \<open>R\<close>, and the coordinator reads
  \<open>r || R\<close>; both are options here.
\<close>

record EphemeralSharedKey =
  eph_r :: "SerializableBigInt option"
  eph_R :: "SerializableBigInt option"
  eph_rI :: SerializableBigInt

record LocalSignature =
  ls_gammaI :: SerializableBigInt
  ls_gamma_i :: "SerializableBigInt option"
  ls_k :: SerializableBigInt

record Signature =
  sig_r :: SerializableBigInt
  sig_R :: "SerializableBigInt option"
  sig_s :: SerializableBigInt
  sig_S :: "SerializableBigInt option"

record Party =
  partyId :: string
  publicKey :: SerializableBigInt
  partyIndex :: nat
  protocolIndex :: "nat option"

datatype phase = Keygen | Signing

record KeyGenSession =
  threshold :: int
  totalParties :: int
  keygen_phase :: phase

record SigningSession =
  message :: "8 word list"
  signingParties :: "string list"
  signing_phase :: phase

record PartyRegistrationResponse =
  resp_partyIndex :: nat
  resp_totalParties :: nat

record SignatureResult =
  res_signature :: Signature
  res_signatureHex :: string
  res_aggregatePublicKey :: PublicKey
  res_aggregatePublicKeyHex :: string
  res_isValid :: bool

section \<open>The coordinator (services/coordinator_service.ts)\<close>

text \<open>
  The private fields of \<open>CoordinatorService\<close>. A field declared with \<open>?\<close>
  or \<open>| null\<close> is an option; \<open>None\<close> is \<open>undefined\<close> or \<open>null\<close>.
\<close>

record CoordinatorService =
  session :: "KeyGenSession option"
  parties :: "Party list"
  commitments :: "SerializableBigInt list"
  blindFactors :: "SerializableBigInt list"
  allVssSchemes :: "VSSScheme list"
  allSecretShares :: "SecretShare list list"
  sharedKeys :: "SharedKey list"
  signingSession :: "SigningSession option"
  signingPartyIndices :: "nat list option"
  ephRPoints :: "SerializableBigInt list option"
  ephCommitments :: "SerializableBigInt list option"
  ephBlindFactors :: "SerializableBigInt list option"
  allEphVssSchemes :: "VSSScheme list option"
  allEphSecretShares :: "SecretShare list list option"
  ephSharedKeys :: "EphemeralSharedKey list option"
  aggregatePublicKey :: "PublicKey option"

text \<open>The state the constructor and the field initialisers leave.\<close>

definition new_CoordinatorService :: CoordinatorService where
  "new_CoordinatorService =
     \<lparr>session = None, parties = [], commitments = [], blindFactors = [],
      allVssSchemes = [], allSecretShares = [], sharedKeys = [],
      signingSession = None, signingPartyIndices = None, ephRPoints = None,
      ephCommitments = None, ephBlindFactors = None, allEphVssSchemes = None,
      allEphSecretShares = None, ephSharedKeys = None, aggregatePublicKey = None\<rparr>"

text \<open>
  Every method returns the value or the exception, and the state it leaves:
  an exception thrown half-way keeps the assignments made before it. The
  methods embedded are \<open>startKeyGeneration\<close>, \<open>registerParty\<close>,
  \<open>collectSharedKeys\<close>, \<open>startSigning\<close> and \<open>collectLocalSignatures\<close>; the
  other collectors and the getters do not touch \<open>session\<close> or \<open>parties\<close>.
\<close>

definition startKeyGeneration ::
    "int \<Rightarrow> int \<Rightarrow> CoordinatorService \<Rightarrow> (error + KeyGenSession) \<times> CoordinatorService" where
  "startKeyGeneration threshold' totalParties' this =
     (case validateThreshold threshold' (Some totalParties') of
        Inl e \<Rightarrow> (Inl e, this)
      | Inr _ \<Rightarrow>
          (let s = \<lparr>threshold = threshold', totalParties = totalParties',
                    keygen_phase = Keygen\<rparr>
           in (Inr s,
               this\<lparr>session := Some s, parties := [], commitments := [],
                    blindFactors := [], allVssSchemes := [], allSecretShares := [],
                    sharedKeys := []\<rparr>)))"


subsection \<open>Sorting as JavaScript does\<close>

text \<open>
  \<open>Array.prototype.sort\<close> is stable, and with a consistent comparator it
  leaves the array in ascending order of the comparator: the result is the
  one a stable insertion sort computes. \<open>c x y \<le> 0\<close> reads "x does not come
  after y".
\<close>

fun insort_by :: "('a \<Rightarrow> 'a \<Rightarrow> int) \<Rightarrow> 'a \<Rightarrow> 'a list \<Rightarrow> 'a list" where
  "insort_by c x [] = [x]"
| "insort_by c x (y # ys) = (if c x y \<le> 0 then x # y # ys else y # insort_by c x ys)"

definition Array_sort :: "('a \<Rightarrow> 'a \<Rightarrow> int) \<Rightarrow> 'a list \<Rightarrow> 'a list" where
  "Array_sort c xs = foldr (insort_by c) xs []"

text \<open>
  \<open>sort()\<close> without a comparator compares the elements' \<open>ToString\<close> images
  by code units, whatever the elements are.
\<close>

fun codeUnitLess :: "string \<Rightarrow> string \<Rightarrow> bool" where
  "codeUnitLess [] [] = False"
| "codeUnitLess [] (y # ys) = True"
| "codeUnitLess (x # xs) [] = False"
| "codeUnitLess (x # xs) (y # ys) =
     ((of_char x :: nat) < of_char y \<or> (x = y \<and> codeUnitLess xs ys))"

definition SortCompare_default :: "('a \<Rightarrow> string) \<Rightarrow> 'a \<Rightarrow> 'a \<Rightarrow> int" where
  "SortCompare_default toStr x y =
     (if codeUnitLess (toStr x) (toStr y) then - 1
      else if codeUnitLess (toStr y) (toStr x) then 1
      else 0)"

definition digitChar :: "nat \<Rightarrow> char" where
  "digitChar d = ''0123456789'' ! d"

fun Number_toString :: "nat \<Rightarrow> string" where
  "Number_toString n =
     (if n < 10 then [digitChar n]
      else Number_toString (n div 10) @ [digitChar (n mod 10)])"

declare Number_toString.simps [simp del]

subsection \<open>What the platform supplies\<close>

text \<open>
  \<open>String.prototype.localeCompare\<close> and SHA-256 belong to the runtime, not
  to the repository: the methods take them as a parameter.
  \<open>sha256_readUInt16BE\<close> is \<open>createHash("sha256").update(id).digest().readUInt16BE(0)\<close>.
\<close>

record platform =
  localeCompare :: "string \<Rightarrow> string \<Rightarrow> int"
  sha256_readUInt16BE :: "string \<Rightarrow> nat"

text \<open>
  A comparator is consistent when before and after mirror each other and
  not-after is transitive, which is what ECMAScript asks of the
  argument of \<open>sort\<close>; it separates a list when no two different
  elements of the list compare as 0.
\<close>

definition consistent_comparator :: "('a \<Rightarrow> 'a \<Rightarrow> int) \<Rightarrow> bool" where
  "consistent_comparator c \<longleftrightarrow>
     (\<forall>a b. (c a b < 0) = (0 < c b a)) \<and>
     (\<forall>a b d. c a b \<le> 0 \<and> c b d \<le> 0 \<longrightarrow> c a d \<le> 0)"

definition separates :: "('a \<Rightarrow> 'a \<Rightarrow> int) \<Rightarrow> 'a list \<Rightarrow> bool" where
  "separates c xs \<longleftrightarrow> (\<forall>a\<in>set xs. \<forall>b\<in>set xs. c a b = 0 \<longrightarrow> a = b)"

text \<open>
  The stand-in used where a closed example needs a runtime: it compares by
  code units, as \<open>localeCompare\<close> does on identifiers made of digits and
  lower-case letters of equal length, and hashes every identifier to 0 (the
  hash only fills \<open>partyIndex\<close>, which no method reads).
\<close>

definition codeUnitPlatform :: platform where
  "codeUnitPlatform =
     \<lparr>localeCompare = SortCompare_default id, sha256_readUInt16BE = (\<lambda>_. 0)\<rparr>"

subsection \<open>registerParty\<close>

definition getPartyIndexFromId :: "platform \<Rightarrow> string \<Rightarrow> nat" where
  "getPartyIndexFromId P partyId' = sha256_readUInt16BE P partyId'"

text \<open>\<open>this.parties.forEach((p, idx) => { p.protocolIndex = idx; })\<close>\<close>

definition assignProtocolIndices :: "Party list \<Rightarrow> Party list" where
  "assignProtocolIndices ps =
     map (\<lambda>(idx, p). p\<lparr>protocolIndex := Some idx\<rparr>) (enumerate 0 ps)"

definition registerParty ::
    "platform \<Rightarrow> string \<Rightarrow> SerializableBigInt \<Rightarrow> CoordinatorService
       \<Rightarrow> (error + PartyRegistrationResponse) \<times> CoordinatorService" where
  "registerParty P partyId' publicKey' this =
     (case session this of
        None \<Rightarrow> (Inl SessionError, this)
      | Some _ \<Rightarrow>
          (let normalizedPublicKey = normalizeBytesToBuffer publicKey';
               partyIndex' = getPartyIndexFromId P partyId';
               pushed = parties this @
                 [\<lparr>partyId = partyId', publicKey = normalizedPublicKey,
                   partyIndex = partyIndex', protocolIndex = None\<rparr>];
               sorted = Array_sort (\<lambda>a b. localeCompare P (partyId a) (partyId b)) pushed;
               this' = this\<lparr>parties := assignProtocolIndices sorted\<rparr>
           in (case find (\<lambda>p. partyId p = partyId') (parties this') of
                 None \<Rightarrow> (Inl PartyError, this')
               | Some party \<Rightarrow>
                   (case protocolIndex party of
                      None \<Rightarrow> (Inl PartyError, this')
                    | Some i \<Rightarrow>
                        (Inr \<lparr>resp_partyIndex = i,
                              resp_totalParties = length (parties this')\<rparr>,
                         this')))))"

text \<open>
  A round of registrations: the calls in the order of the list, each on the
  state the one before left. The responses are dropped.
\<close>

fun registerAll ::
    "platform \<Rightarrow> (string \<times> SerializableBigInt) list \<Rightarrow> CoordinatorService
       \<Rightarrow> CoordinatorService" where
  "registerAll P [] this = this"
| "registerAll P ((pid, pk) # rest) this =
     registerAll P rest (snd (registerParty P pid pk this))"

subsection \<open>startSigning\<close>

text \<open>
  The callback of \<open>signingParties.map\<close>: the first party with the given
  identifier, and its protocol index.
\<close>

definition lookupProtocolIndex :: "Party list \<Rightarrow> string \<Rightarrow> error + nat" where
  "lookupProtocolIndex ps pid =
     (case find (\<lambda>p. partyId p = pid) ps of
        None \<Rightarrow> Inl PlainError
      | Some party \<Rightarrow>
          (case protocolIndex party of
             None \<Rightarrow> Inl PlainError
           | Some i \<Rightarrow> Inr i))"

text \<open>\<open>map\<close> with a callback that may throw: the first exception ends it.\<close>

fun mapThrowing :: "('a \<Rightarrow> error + 'b) \<Rightarrow> 'a list \<Rightarrow> error + 'b list" where
  "mapThrowing f [] = Inr []"
| "mapThrowing f (x # xs) =
     (case f x of
        Inl e \<Rightarrow> Inl e
      | Inr v \<Rightarrow>
          (case mapThrowing f xs of
             Inl e \<Rightarrow> Inl e
           | Inr vs \<Rightarrow> Inr (v # vs)))"

record SigningStart =
  start_message :: "8 word list"
  start_signingParties :: "nat list"

definition startSigning ::
    "message_input \<Rightarrow> string list \<Rightarrow> CoordinatorService
       \<Rightarrow> (error + SigningStart) \<times> CoordinatorService" where
  "startSigning message' signingParties' this =
     (case session this of
        None \<Rightarrow> (Inl StateError, this)
      | Some s \<Rightarrow>
          (case (if int (length signingParties') < threshold s
                 then validateSigningParties (int (length signingParties'))
                        (threshold s) (Some (totalParties s))
                 else Inr ()) of
             Inl e \<Rightarrow> (Inl e, this)
           | Inr _ \<Rightarrow>
               (let messageBuffer = normalizeMessage message';
                    sortedIds = Array_sort (SortCompare_default id) signingParties';
                    this1 = this\<lparr>signingSession :=
                              Some \<lparr>message = messageBuffer, signingParties = sortedIds,
                                    signing_phase = Signing\<rparr>\<rparr>
                in (case mapThrowing (lookupProtocolIndex (parties this)) sortedIds of
                      Inl e \<Rightarrow> (Inl e, this1)
                    | Inr indices \<Rightarrow>
                        (let sortedIndices =
                               Array_sort (SortCompare_default Number_toString) indices
                         in (Inr \<lparr>start_message = messageBuffer,
                                   start_signingParties = sortedIndices\<rparr>,
                             this1\<lparr>signingPartyIndices := Some sortedIndices\<rparr>))))))"

subsection \<open>collectSharedKeys\<close>

record AggregateKeyResult =
  agg_aggregatePublicKey :: PublicKey
  agg_sharedKeys :: "SharedKey list"

text \<open>\<open>MPCClient.aggregateKey\<close> (client/mpc_client.ts)\<close>

definition aggregateKey :: "SharedKey list \<Rightarrow> error + AggregateKeyResult" where
  "aggregateKey sharedKeys' =
     (case sharedKeys' of
        [] \<Rightarrow> Inl (ValidationError NoSharedKeys)
      | first # _ \<Rightarrow>
          Inr \<lparr>agg_aggregatePublicKey = sk_y first, agg_sharedKeys = sharedKeys'\<rparr>)"

record SharedKeysResult =
  out_aggregatePublicKey :: SerializableBigInt
  out_aggregatePublicKeyHex :: string
  out_sharedKeys :: "SharedKey list"

definition collectSharedKeys ::
    "platform \<Rightarrow> (string \<times> SharedKey) list \<Rightarrow> CoordinatorService
       \<Rightarrow> (error + SharedKeysResult) \<times> CoordinatorService" where
  "collectSharedKeys P partySharedKeys this =
     (let sorted = Array_sort (\<lambda>a b. localeCompare P (fst a) (fst b)) partySharedKeys;
          stored = map (\<lambda>sk. \<lparr>sk_y = normalizeBytesToBuffer (sk_y (snd sk)),
                               sk_xI = normalizeBytesToBuffer (sk_xI (snd sk)),
                               sk_x_i = None,
                               sk_prefix = map_option normalizeBytesToBuffer
                                             (sk_prefix (snd sk))\<rparr>) sorted;
          this1 = this\<lparr>sharedKeys := stored\<rparr>
      in (case aggregateKey stored of
            Inl e \<Rightarrow> (Inl e, this1)
          | Inr agg \<Rightarrow>
              (Inr \<lparr>out_aggregatePublicKey = serializeForHttp (agg_aggregatePublicKey agg),
                    out_aggregatePublicKeyHex = toHex (bytes (agg_aggregatePublicKey agg)),
                    out_sharedKeys =
                      map (\<lambda>sk. \<lparr>sk_y = serializeForHttp (sk_y sk),
                                  sk_xI = serializeForHttp (sk_xI sk),
                                  sk_x_i = None,
                                  sk_prefix = map_option serializeForHttp (sk_prefix sk)\<rparr>)
                          stored\<rparr>,
               this1\<lparr>aggregatePublicKey := Some (agg_aggregatePublicKey agg)\<rparr>)))"

subsection \<open>The native module\<close>

text \<open>
  \<open>threshold_sig\<close> of \<open>multi-party-eddsa-node\<close> is compiled Rust behind
  NAPI: the methods take it as a parameter. Its key store is a state \<open>'w\<close>
  of its own, \<open>'v\<close> is the \<open>any\<close> that \<open>verifyLocalSigs\<close> returns, every call
  may throw, and byte arguments are the \<open>number[]\<close> the callers build.
\<close>

record ('w, 'v) threshold_sig =
  phase1Create :: "nat \<Rightarrow> 'w \<Rightarrow> (error + string) \<times> 'w"
  getPublicKey :: "string \<Rightarrow> 'w \<Rightarrow> error + PublicKey"
  ephemeralKeyCreate :: "string \<Rightarrow> nat list \<Rightarrow> nat \<Rightarrow> 'w \<Rightarrow> (error + string) \<times> 'w"
  getEphemeralR :: "string \<Rightarrow> 'w \<Rightarrow> error + SerializableBigInt"
  verifyLocalSigs ::
    "(nat list \<times> nat list) list \<Rightarrow> nat list \<Rightarrow> VSSScheme list \<Rightarrow> VSSScheme list
       \<Rightarrow> error + 'v"
  generateSignature ::
    "'v \<Rightarrow> (nat list \<times> nat list) list \<Rightarrow> nat list \<Rightarrow> nat list \<Rightarrow> error + Signature"
  verifySignature :: "nat list \<Rightarrow> nat list \<Rightarrow> nat list \<Rightarrow> nat list \<Rightarrow> error + bool"

text \<open>\<open>Array.isArray(x.bytes) ? x.bytes : Array.from(x.bytes)\<close>\<close>

definition bytesToArray :: "byte_data \<Rightarrow> nat list" where
  "bytesToArray d = (case d of ArrayOf a \<Rightarrow> a | BufferOf b \<Rightarrow> Array_from_buffer b)"

subsection \<open>The stateless client (client/mpc_client.ts)\<close>

record KeyGenResult =
  kg_keyId :: string
  kg_publicKey :: PublicKey

record EphemeralKeyResult =
  ephKeyId :: string
  ephR :: SerializableBigInt

definition createPubKey ::
    "('w, 'v) threshold_sig \<Rightarrow> nat \<Rightarrow> 'w \<Rightarrow> (error + KeyGenResult) \<times> 'w" where
  "createPubKey N partyIndex' w =
     (case phase1Create N partyIndex' w of
        (Inl e, w') \<Rightarrow> (Inl e, w')
      | (Inr keyId', w') \<Rightarrow>
          (case getPublicKey N keyId' w' of
             Inl e \<Rightarrow> (Inl e, w')
           | Inr publicKey' \<Rightarrow>
               (Inr \<lparr>kg_keyId = keyId', kg_publicKey = publicKey'\<rparr>, w')))"

definition MPCClient_createEphemeralKey ::
    "('w, 'v) threshold_sig \<Rightarrow> string \<Rightarrow> byte_data \<Rightarrow> nat \<Rightarrow> 'w
       \<Rightarrow> (error + EphemeralKeyResult) \<times> 'w" where
  "MPCClient_createEphemeralKey N keyId' message' partyIndex' w =
     (let messageArray = (case message' of
                            BufferOf b \<Rightarrow> Array_from_buffer b
                          | ArrayOf a \<Rightarrow> a)
      in (case ephemeralKeyCreate N keyId' messageArray partyIndex' w of
            (Inl e, w') \<Rightarrow> (Inl e, w')
          | (Inr ephKeyId', w') \<Rightarrow>
              (case getEphemeralR N ephKeyId' w' of
                 Inl e \<Rightarrow> (Inl e, w')
               | Inr ephR' \<Rightarrow> (Inr \<lparr>ephKeyId = ephKeyId', ephR = ephR'\<rparr>, w'))))"

definition localSigsRust :: "LocalSignature list \<Rightarrow> (nat list \<times> nat list) list" where
  "localSigsRust localSigs =
     map (\<lambda>sig. (bytesToArray (bytes (ls_gammaI sig)), bytesToArray (bytes (ls_k sig))))
         localSigs"

definition verifyLocalSignatures ::
    "('w, 'v) threshold_sig \<Rightarrow> LocalSignature list \<Rightarrow> nat list \<Rightarrow> VSSScheme list
       \<Rightarrow> VSSScheme list \<Rightarrow> error + 'v" where
  "verifyLocalSignatures N localSigs signingParties' keyGenVssSchemes ephVssSchemes =
     verifyLocalSigs N (localSigsRust localSigs) signingParties' keyGenVssSchemes
       ephVssSchemes"

definition aggregateSignature ::
    "('w, 'v) threshold_sig \<Rightarrow> 'v \<Rightarrow> LocalSignature list \<Rightarrow> nat list
       \<Rightarrow> SerializableBigInt \<Rightarrow> error + Signature" where
  "aggregateSignature N vssSum localSigs signingParties' aggregateR =
     generateSignature N vssSum (localSigsRust localSigs) signingParties'
       (bytesToArray (bytes aggregateR))"

definition MPCClient_verifySignature ::
    "('w, 'v) threshold_sig \<Rightarrow> Signature \<Rightarrow> byte_data \<Rightarrow> PublicKey \<Rightarrow> error + bool" where
  "MPCClient_verifySignature N signature message' aggregatePublicKey' =
     (let messageArray = (case message' of
                            BufferOf b \<Rightarrow> Array_from_buffer b
                          | ArrayOf a \<Rightarrow> a)
      in verifySignature N (bytesToArray (bytes (sig_r signature)))
           (bytesToArray (bytes (sig_s signature))) messageArray
           (bytesToArray (bytes aggregatePublicKey')))"

subsection \<open>collectLocalSignatures\<close>

text \<open>
  \<open>firstKey.r || firstKey.R\<close>, and the in-place rewrite of its \<open>bytes\<close> to a
  number array that the method does before it calls the client. An object
  is truthy, so is its \<open>bytes\<close>, whatever they hold.
\<close>

definition aggregateROf :: "EphemeralSharedKey \<Rightarrow> SerializableBigInt option" where
  "aggregateROf key = (case eph_r key of Some r \<Rightarrow> Some r | None \<Rightarrow> eph_R key)"

definition arrayifyAggregateR :: "EphemeralSharedKey \<Rightarrow> EphemeralSharedKey" where
  "arrayifyAggregateR key =
     (case eph_r key of
        Some r \<Rightarrow> key\<lparr>eph_r := Some \<lparr>bytes = ArrayOf (bytesToArray (bytes r))\<rparr>\<rparr>
      | None \<Rightarrow>
          (case eph_R key of
             Some r \<Rightarrow> key\<lparr>eph_R := Some \<lparr>bytes = ArrayOf (bytesToArray (bytes r))\<rparr>\<rparr>
           | None \<Rightarrow> key))"

text \<open>
  \<open>!this.allVssSchemes\<close> is never true, the field always holding an array.
  \<open>signature.r || signature.R\<close> is \<open>signature.r\<close>, a mandatory field that the
  client has just read.
\<close>

definition collectLocalSignatures ::
    "platform \<Rightarrow> ('w, 'v) threshold_sig \<Rightarrow> (string \<times> LocalSignature) list
       \<Rightarrow> CoordinatorService \<Rightarrow> (error + SignatureResult) \<times> CoordinatorService" where
  "collectLocalSignatures P N partyLocalSigs this =
     (let sorted = Array_sort (\<lambda>a b. localeCompare P (fst a) (fst b)) partyLocalSigs;
          localSigs = map (\<lambda>sig. \<lparr>ls_gammaI = normalizeBytesForRust (ls_gammaI (snd sig)),
                                   ls_gamma_i = None,
                                   ls_k = normalizeBytesForRust (ls_k (snd sig))\<rparr>) sorted
      in (case (signingPartyIndices this, signingSession this, allEphVssSchemes this,
                ephSharedKeys this, aggregatePublicKey this) of
            (Some indices, Some signing, Some ephVss, Some ephKeys, Some aggregate) \<Rightarrow>
              (let ephKeys' = (case ephKeys of
                                 [] \<Rightarrow> []
                               | firstKey # others \<Rightarrow> arrayifyAggregateR firstKey # others);
                   this1 = this\<lparr>ephSharedKeys := Some ephKeys'\<rparr>
               in (case verifyLocalSignatures N localSigs indices (allVssSchemes this) ephVss of
                     Inl e \<Rightarrow> (Inl e, this1)
                   | Inr vssSum \<Rightarrow>
                       (case ephKeys' of
                          [] \<Rightarrow> (Inl StateError, this1)
                        | firstEphKey # _ \<Rightarrow>
                            (case aggregateROf firstEphKey of
                               None \<Rightarrow> (Inl StateError, this1)
                             | Some aggregateR \<Rightarrow>
                                 (case aggregateSignature N vssSum localSigs indices
                                         aggregateR of
                                    Inl e \<Rightarrow> (Inl e, this1)
                                  | Inr signature \<Rightarrow>
                                      (let messageArray =
                                             messageToArray (MsgBuffer (message signing));
                                           aggregatePublicKeyArray =
                                             \<lparr>bytes = ArrayOf (bytesToArray (bytes aggregate))\<rparr>
                                       in (case MPCClient_verifySignature N signature
                                                  (ArrayOf messageArray)
                                                  aggregatePublicKeyArray of
                                             Inl e \<Rightarrow> (Inl e, this1)
                                           | Inr isValid \<Rightarrow>
                                               (Inr \<lparr>res_signature =
                                                       \<lparr>sig_r = serializeForHttp (sig_r signature),
                                                        sig_R = None,
                                                        sig_s = serializeForHttp (sig_s signature),
                                                        sig_S = None\<rparr>,
                                                     res_signatureHex =
                                                       toHex (bytes (sig_r signature)) @
                                                       toHex (bytes (sig_s signature)),
                                                     res_aggregatePublicKey =
                                                       serializeForHttp aggregate,
                                                     res_aggregatePublicKeyHex =
                                                       toHex (bytes aggregate),
                                                     res_isValid = isValid\<rparr>,
                                                this1))))))))
          | _ \<Rightarrow> (Inl StateError, this)))"

section \<open>The party agent (services/mpc_service.ts)\<close>

record MPCService =
  service_partyId :: string
  keyId :: "string option"
  sharedKey :: "SharedKey option"

definition new_MPCService :: "string \<Rightarrow> MPCService" where
  "new_MPCService partyId' =
     \<lparr>service_partyId = partyId', keyId = None, sharedKey = None\<rparr>"

record RegistrationResult =
  reg_partyId :: string
  reg_publicKey :: SerializableBigInt
  reg_publicKeyHex :: string

definition getPartyIndex :: "platform \<Rightarrow> MPCService \<Rightarrow> nat" where
  "getPartyIndex P this = sha256_readUInt16BE P (service_partyId this)"

definition initialize ::
    "platform \<Rightarrow> ('w, 'v) threshold_sig \<Rightarrow> MPCService \<Rightarrow> 'w
       \<Rightarrow> (error + RegistrationResult) \<times> MPCService \<times> 'w" where
  "initialize P N this w =
     (case createPubKey N (getPartyIndex P this) w of
        (Inl e, w') \<Rightarrow> (Inl e, this, w')
      | (Inr created, w') \<Rightarrow>
          (Inr \<lparr>reg_partyId = service_partyId this,
                reg_publicKey = serializeForHttp (kg_publicKey created),
                reg_publicKeyHex = toHex (bytes (kg_publicKey created))\<rparr>,
           this\<lparr>keyId := Some (kg_keyId created)\<rparr>, w'))"

definition register ::
    "platform \<Rightarrow> ('w, 'v) threshold_sig \<Rightarrow> MPCService \<Rightarrow> 'w
       \<Rightarrow> (error + RegistrationResult) \<times> MPCService \<times> 'w" where
  "register P N this w = initialize P N this w"

text \<open>
  \<open>!this.keyId\<close> holds for \<open>null\<close> and for the empty string.
\<close>

definition createEphemeralKey ::
    "('w, 'v) threshold_sig \<Rightarrow> message_input \<Rightarrow> nat \<Rightarrow> MPCService \<Rightarrow> 'w
       \<Rightarrow> (error + EphemeralKeyResult) \<times> 'w" where
  "createEphemeralKey N message' partyIndex' this w =
     (case keyId this of
        None \<Rightarrow> (Inl ServiceError, w)
      | Some keyId' \<Rightarrow>
          if keyId' = [] then (Inl ServiceError, w)
          else
            (let messageNormalized = normalizeMessage message';
                 messageArray = Array_from_buffer messageNormalized
             in MPCClient_createEphemeralKey N keyId' (ArrayOf messageArray) partyIndex' w))"

section \<open>Notions the statements use\<close>

text \<open>The number of identifiers that sort strictly before a given one.\<close>

definition rankOf :: "('a \<Rightarrow> 'a \<Rightarrow> int) \<Rightarrow> 'a list \<Rightarrow> 'a \<Rightarrow> nat" where
  "rankOf c ids x = length (filter (\<lambda>y. c y x < 0) ids)"

text \<open>Every stored party carries a protocol index.\<close>

definition parties_indexed :: "CoordinatorService \<Rightarrow> bool" where
  "parties_indexed this \<longleftrightarrow> list_all (\<lambda>p. protocolIndex p \<noteq> None) (parties this)"

text \<open>The entry \<open>registerParty\<close> pushes, and the comparator it sorts with.\<close>

definition newParty :: "platform \<Rightarrow> string \<times> SerializableBigInt \<Rightarrow> Party" where
  "newParty P reg =
     \<lparr>partyId = fst reg, publicKey = normalizeBytesToBuffer (snd reg),
      partyIndex = getPartyIndexFromId P (fst reg), protocolIndex = None\<rparr>"

definition byPartyId :: "platform \<Rightarrow> Party \<Rightarrow> Party \<Rightarrow> int" where
  "byPartyId P = (\<lambda>a b. localeCompare P (partyId a) (partyId b))"

definition unindexed :: "Party \<Rightarrow> Party" where
  "unindexed p = p\<lparr>protocolIndex := None\<rparr>"

text \<open>
  The party list after the registrations \<open>regs\<close>, in any order: sorted by
  identifier, holding exactly the pushed entries, indexed by position.
\<close>

definition registered ::
    "platform \<Rightarrow> (string \<times> SerializableBigInt) list \<Rightarrow> CoordinatorService \<Rightarrow> bool" where
  "registered P regs this \<longleftrightarrow>
     sorted_wrt (\<lambda>a b. localeCompare P a b \<le> 0) (map partyId (parties this)) \<and>
     mset (map unindexed (parties this)) = mset (map (newParty P) regs) \<and>
     assignProtocolIndices (parties this) = parties this"

section \<open>Example sessions\<close>

text \<open>
  Concrete sessions for the closed examples below: three and eleven parties
  registered out of order on the code-unit platform, and a stand-in for the
  native module that hands out handles from a counter, returns as
  \<open>ephR\<close> the message its nonce derivation received, aggregates by
  concatenation and accepts a signature when its \<open>r\<close> equals the public
  key.
\<close>

definition threeParties :: "(string \<times> SerializableBigInt) list" where
  "threeParties =
     [(''carol'', \<lparr>bytes = ArrayOf [3]\<rparr>), (''alice'', \<lparr>bytes = ArrayOf [1]\<rparr>),
      (''bob'', \<lparr>bytes = ArrayOf [2]\<rparr>)]"

definition afterThree :: CoordinatorService where
  "afterThree =
     registerAll codeUnitPlatform threeParties
       (snd (startKeyGeneration 2 3 new_CoordinatorService))"

definition elevenParties :: "(string \<times> SerializableBigInt) list" where
  "elevenParties =
     map (\<lambda>pid. (pid, \<lparr>bytes = ArrayOf [1]\<rparr>))
       [''p00'', ''p01'', ''p02'', ''p03'', ''p04'', ''p05'', ''p06'', ''p07'', ''p08'',
        ''p09'', ''p10'']"

definition afterEleven :: CoordinatorService where
  "afterEleven =
     registerAll codeUnitPlatform elevenParties
       (snd (startKeyGeneration 2 11 new_CoordinatorService))"

definition stubThresholdSig :: "(nat \<times> nat list, unit) threshold_sig" where
  "stubThresholdSig =
     \<lparr>phase1Create = (\<lambda>partyIndex' w. (Inr (''key-'' @ Number_toString (fst w)), (Suc (fst w), snd w))),
      getPublicKey = (\<lambda>keyId' w. Inr \<lparr>bytes = ArrayOf [length keyId']\<rparr>),
      ephemeralKeyCreate = (\<lambda>keyId' message' partyIndex' w.
         (Inr (''eph-'' @ Number_toString (fst w)), (Suc (fst w), message'))),
      getEphemeralR = (\<lambda>ephKeyId' w. Inr \<lparr>bytes = ArrayOf (snd w)\<rparr>),
      verifyLocalSigs = (\<lambda>localSigs signingParties' vss ephVss. Inr ()),
      generateSignature = (\<lambda>vssSum localSigs signingParties' aggregateR.
         Inr \<lparr>sig_r = \<lparr>bytes = ArrayOf aggregateR\<rparr>, sig_R = None,
              sig_s = \<lparr>bytes = ArrayOf (concat (map fst localSigs))\<rparr>, sig_S = None\<rparr>),
      verifySignature = (\<lambda>r s message' publicKey'. Inr (r = publicKey'))\<rparr>"

definition readyToAggregate :: CoordinatorService where
  "readyToAggregate =
     afterThree
       \<lparr>signingSession :=
          Some \<lparr>message = [104, 105], signingParties = [''alice'', ''bob''],
                signing_phase = Signing\<rparr>,
        signingPartyIndices := Some [0, 1],
        allEphVssSchemes := Some [],
        ephSharedKeys :=
          Some [\<lparr>eph_r = None, eph_R = Some \<lparr>bytes = BufferOf [9]\<rparr>,
                 eph_rI = \<lparr>bytes = ArrayOf [4]\<rparr>\<rparr>],
        aggregatePublicKey := Some \<lparr>bytes = BufferOf [9]\<rparr>\<rparr>"

definition twoLocalSigs :: "(string \<times> LocalSignature) list" where
  "twoLocalSigs =
     [(''bob'', \<lparr>ls_gammaI = \<lparr>bytes = ArrayOf [2]\<rparr>, ls_gamma_i = None,
                 ls_k = \<lparr>bytes = ArrayOf [7]\<rparr>\<rparr>),
      (''alice'', \<lparr>ls_gammaI = \<lparr>bytes = BufferOf [1]\<rparr>, ls_gamma_i = None,
                   ls_k = \<lparr>bytes = ArrayOf [7]\<rparr>\<rparr>)]"


text \<open>
  A second stand-in for \<open>localeCompare\<close>, after the collation of the
  runtime on identifiers made of ASCII letters, digits and the control
  character U+0001: the control character is ignored, letters compare
  without regard to case first, and of two strings that differ in case only,
  the one with the lower-case letter at the first difference comes first. So
  \<open>a\<close> and \<open>a\<close> followed by U+0001 compare as 0, and \<open>a\<close> comes before
  \<open>B\<close>.
\<close>

definition foldCase :: "char \<Rightarrow> char" where
  "foldCase c =
     (let n = (of_char c :: nat)
      in if 65 \<le> n \<and> n \<le> 90 then char_of (n + 32) else c)"

definition collationLetters :: "string \<Rightarrow> string" where
  "collationLetters s = filter (\<lambda>c. c \<noteq> CHR 0x01) s"

definition collationCompare :: "string \<Rightarrow> string \<Rightarrow> int" where
  "collationCompare a b =
     (let fa = collationLetters a; fb = collationLetters b;
          ka = map foldCase fa; kb = map foldCase fb
      in if codeUnitLess ka kb then - 1
         else if codeUnitLess kb ka then 1
         else if codeUnitLess fb fa then - 1
         else if codeUnitLess fa fb then 1
         else 0)"

definition collationPlatform :: platform where
  "collationPlatform =
     \<lparr>localeCompare = collationCompare, sha256_readUInt16BE = (\<lambda>_. 0)\<rparr>"

definition mixedParties :: "(string \<times> SerializableBigInt) list" where
  "mixedParties =
     [(''carol'', \<lparr>bytes = ArrayOf [3]\<rparr>), (''Bob'', \<lparr>bytes = ArrayOf [2]\<rparr>),
      (''alice'', \<lparr>bytes = ArrayOf [1]\<rparr>)]"


section \<open>Sorting lemmas\<close>


lemma consistent_total: "consistent_comparator c \<Longrightarrow> \<not> c a b \<le> 0 \<Longrightarrow> c b a \<le> 0"
  unfolding consistent_comparator_def by (metis not_le order.strict_implies_order)

lemma consistent_trans:
  "consistent_comparator c \<Longrightarrow> c a b \<le> 0 \<Longrightarrow> c b d \<le> 0 \<Longrightarrow> c a d \<le> 0"
  unfolding consistent_comparator_def by blast

lemma consistent_antisym:
  "consistent_comparator c \<Longrightarrow> c a b \<le> 0 \<Longrightarrow> c b a \<le> 0 \<Longrightarrow> c a b = 0"
  unfolding consistent_comparator_def by (metis less_le not_le)

lemma consistent_on_key:
  "consistent_comparator c \<Longrightarrow> consistent_comparator (\<lambda>a b. c (k a) (k b))"
  unfolding consistent_comparator_def by blast

lemma mset_insort_by: "mset (insort_by c x xs) = add_mset x (mset xs)"
  by (induction xs) auto

lemma mset_Array_sort: "mset (Array_sort c xs) = mset xs"
  by (induction xs) (auto simp: Array_sort_def mset_insort_by)

lemma set_insort_by: "set (insort_by c x xs) = insert x (set xs)"
  by (induction xs) auto

lemma set_Array_sort: "set (Array_sort c xs) = set xs"
  by (metis mset_Array_sort set_mset_mset)

lemma length_Array_sort: "length (Array_sort c xs) = length xs"
  by (metis mset_Array_sort size_mset)

lemma sorted_insort_by:
  assumes "consistent_comparator c"
  shows "sorted_wrt (\<lambda>a b. c a b \<le> 0) xs \<Longrightarrow> sorted_wrt (\<lambda>a b. c a b \<le> 0) (insort_by c x xs)"
proof (induction xs)
  case Nil
  then show ?case by simp
next
  case (Cons y ys)
  show ?case
  proof (cases "c x y \<le> 0")
    case True
    then have "\<forall>z\<in>set ys. c x z \<le> 0"
      using Cons.prems consistent_trans [OF assms] by auto
    with True Cons.prems show ?thesis by simp
  next
    case False
    then have "c y x \<le> 0" using consistent_total [OF assms] by blast
    with False Cons show ?thesis by (auto simp: set_insort_by)
  qed
qed

lemma sorted_Array_sort:
  "consistent_comparator c \<Longrightarrow> sorted_wrt (\<lambda>a b. c a b \<le> 0) (Array_sort c xs)"
  by (induction xs) (auto simp: Array_sort_def sorted_insort_by)

lemma insort_by_map:
  "(\<And>a b. c (f a) (f b) = c a b) \<Longrightarrow> insort_by c (f x) (map f xs) = map f (insort_by c x xs)"
  by (induction xs) auto

lemma Array_sort_map:
  "(\<And>a b. c (f a) (f b) = c a b) \<Longrightarrow> Array_sort c (map f xs) = map f (Array_sort c xs)"
  by (induction xs) (auto simp: Array_sort_def insort_by_map)

lemma separatesD:
  "separates c xs \<Longrightarrow> a \<in> set xs \<Longrightarrow> b \<in> set xs \<Longrightarrow> c a b = 0 \<Longrightarrow> a = b"
  unfolding separates_def by blast

lemma separates_Cons: "separates c (x # xs) \<Longrightarrow> separates c xs"
  unfolding separates_def by simp

lemma separates_set: "set xs = set ys \<Longrightarrow> separates c xs = separates c ys"
  unfolding separates_def by simp

lemma sorted_key_unique:
  assumes c: "consistent_comparator c"
  shows "sorted_wrt (\<lambda>a b. c (k a) (k b) \<le> 0) xs \<Longrightarrow>
         sorted_wrt (\<lambda>a b. c (k a) (k b) \<le> 0) ys \<Longrightarrow>
         mset xs = mset ys \<Longrightarrow> distinct (map k xs) \<Longrightarrow>
         separates c (map k xs) \<Longrightarrow> xs = ys"
proof (induction xs arbitrary: ys)
  case Nil
  then show ?case by simp
next
  case (Cons x xs)
  from Cons.prems(3) obtain y ys' where ys: "ys = y # ys'"
    by (cases ys) auto
  have sets: "set (x # xs) = set (y # ys')"
    using Cons.prems(3) ys by (metis set_mset_mset)
  have "x = y"
  proof (rule ccontr)
    assume ne: "x \<noteq> y"
    then have "x \<in> set ys'" and yin: "y \<in> set xs" using sets by auto
    then have "c (k y) (k x) \<le> 0" and "c (k x) (k y) \<le> 0"
      using Cons.prems(1,2) ys by auto
    then have zero: "c (k x) (k y) = 0" using consistent_antisym [OF c] by blast
    have "k x \<in> set (map k (x # xs))" and "k y \<in> set (map k (x # xs))"
      using yin by simp_all
    then have "k x = k y" using separatesD [OF Cons.prems(5) _ _ zero] by blast
    moreover have "k y \<in> k ` set xs" using yin by blast
    ultimately show False using Cons.prems(4) by auto
  qed
  moreover have "separates c (map k xs)"
    using separates_Cons [of c "k x" "map k xs"] Cons.prems(5) by simp
  then have "xs = ys'"
    using Cons.IH [of ys'] Cons.prems(1-4) ys \<open>x = y\<close> by auto
  ultimately show ?case using ys by simp
qed

lemma rankOf_mset: "mset xs = mset ys \<Longrightarrow> rankOf c xs x = rankOf c ys x"
  unfolding rankOf_def by (metis mset_filter size_mset)

lemma position_is_rank:
  assumes c: "consistent_comparator c"
  shows "sorted_wrt (\<lambda>a b. c a b \<le> 0) xs \<Longrightarrow> distinct xs \<Longrightarrow> separates c xs \<Longrightarrow>
         i < length xs \<Longrightarrow> rankOf c xs (xs ! i) = i"
  unfolding rankOf_def
proof (induction xs arbitrary: i)
  case Nil
  then show ?case by simp
next
  case (Cons x xs)
  have refl: "\<not> c x x < 0" using c unfolding consistent_comparator_def by (metis less_asym)
  show ?case
  proof (cases i)
    case 0
    have "\<forall>y\<in>set xs. \<not> c y x < 0"
      using Cons.prems(1) c unfolding consistent_comparator_def
      by (metis not_le sorted_wrt.simps(2))
    then have "filter (\<lambda>y. c y x < 0) xs = []" by (simp add: filter_empty_conv)
    with 0 refl show ?thesis by simp
  next
    case (Suc j)
    let ?z = "xs ! j"
    have j: "j < length xs" using Cons.prems(4) Suc by simp
    then have zin: "?z \<in> set xs" by simp
    then have "c x ?z \<le> 0" and "x \<noteq> ?z" using Cons.prems(1,2) by auto
    moreover have "c x ?z = 0 \<Longrightarrow> x = ?z"
      using separatesD [OF Cons.prems(3), of x ?z] zin by simp
    ultimately have "c x ?z < 0" by (cases "c x ?z = 0") simp_all
    moreover have "separates c xs" using Cons.prems(3) by (rule separates_Cons)
    then have "length (filter (\<lambda>y. c y ?z < 0) xs) = j"
      using Cons.IH [of j] Cons.prems(1,2) j by simp
    ultimately show ?thesis using Suc by simp
  qed
qed

lemma find_distinct_key:
  "distinct (map k xs) \<Longrightarrow> i < length xs \<Longrightarrow> find (\<lambda>p. k p = k (xs ! i)) xs = Some (xs ! i)"
proof (induction xs arbitrary: i)
  case Nil
  then show ?case by simp
next
  case (Cons x xs)
  show ?case
  proof (cases i)
    case 0
    then show ?thesis by simp
  next
    case (Suc j)
    then have "xs ! j \<in> set xs" using Cons.prems by simp
    then have "k x \<noteq> k (xs ! j)" using Cons.prems(1) by auto
    then show ?thesis using Suc Cons by simp
  qed
qed

lemma length_assign [simp]: "length (assignProtocolIndices ps) = length ps"
  by (simp add: assignProtocolIndices_def)

lemma nth_assign:
  "i < length ps \<Longrightarrow> assignProtocolIndices ps ! i = (ps ! i)\<lparr>protocolIndex := Some i\<rparr>"
  by (simp add: assignProtocolIndices_def nth_enumerate_eq)

lemma map_partyId_assign [simp]: "map partyId (assignProtocolIndices ps) = map partyId ps"
  by (rule nth_equalityI) (simp_all add: nth_assign)

lemma assign_unindexed: "assignProtocolIndices (map unindexed ps) = assignProtocolIndices ps"
  by (rule nth_equalityI) (simp_all add: nth_assign unindexed_def)

lemma unindexed_assign: "map unindexed (assignProtocolIndices ps) = map unindexed ps"
  by (rule nth_equalityI) (simp_all add: nth_assign unindexed_def)

lemma partyId_unindexed [simp]: "partyId (unindexed p) = partyId p"
  by (simp add: unindexed_def)

lemma assigned_in_set:
  "p \<in> set (assignProtocolIndices ps) \<Longrightarrow> protocolIndex p \<noteq> None"
  by (auto simp: in_set_conv_nth nth_assign)

lemma registerParty_parties:
  "session this = Some s \<Longrightarrow>
   parties (snd (registerParty P pid pk this)) =
     assignProtocolIndices (Array_sort (byPartyId P) (parties this @ [newParty P (pid, pk)]))"
  by (simp add: registerParty_def Let_def newParty_def byPartyId_def
           split: option.splits)

lemma registerParty_no_session:
  "session this = None \<Longrightarrow> registerParty P pid pk this = (Inl SessionError, this)"
  by (simp add: registerParty_def)

lemma registerParty_session:
  "session (snd (registerParty P pid pk this)) = session this"
  by (simp add: registerParty_def Let_def split: option.splits)

lemma registerParty_indexed:
  "parties_indexed this \<Longrightarrow> parties_indexed (snd (registerParty P pid pk this))"
proof (cases "session this")
  case None
  then show "parties_indexed this \<Longrightarrow> ?thesis" by (simp add: registerParty_no_session)
next
  case (Some s)
  show ?thesis
    unfolding parties_indexed_def registerParty_parties [OF Some] list_all_iff
    using assigned_in_set by blast
qed

lemma registerParty_response:
  assumes "session this = Some s"
  shows "\<exists>i. fst (registerParty P pid pk this) =
           Inr \<lparr>resp_partyIndex = i, resp_totalParties = Suc (length (parties this))\<rparr>"
proof -
  let ?ps = "assignProtocolIndices (Array_sort (byPartyId P) (parties this @ [newParty P (pid, pk)]))"
  have "pid \<in> set (map partyId ?ps)"
    by (simp add: newParty_def flip: set_map) (simp add: set_Array_sort newParty_def)
  then have "\<exists>p\<in>set ?ps. partyId p = pid" by (auto simp del: map_partyId_assign)
  then have "find (\<lambda>p. partyId p = pid) ?ps \<noteq> None" by (auto simp: find_None_iff)
  then obtain p where p: "find (\<lambda>p. partyId p = pid) ?ps = Some p" by blast
  then have "p \<in> set ?ps" by (auto simp: find_Some_iff)
  then obtain i where i: "protocolIndex p = Some i" using assigned_in_set by blast
  show ?thesis
    using p i assms
    by (simp add: registerParty_def Let_def newParty_def byPartyId_def length_Array_sort)
qed


section \<open>The code-unit comparator and the invariant of registration\<close>


lemma codeUnitLess_irrefl: "\<not> codeUnitLess x x"
  by (induction x) auto

lemma codeUnitLess_asym: "codeUnitLess x y \<Longrightarrow> \<not> codeUnitLess y x"
  by (induction x y rule: codeUnitLess.induct) auto

lemma codeUnitLess_trans: "codeUnitLess x y \<Longrightarrow> codeUnitLess y z \<Longrightarrow> codeUnitLess x z"
proof (induction x y arbitrary: z rule: codeUnitLess.induct)
  case (4 a xs b ys)
  then show ?case by (cases z) (auto intro: less_trans)
qed (auto elim: codeUnitLess.elims)

lemma of_char_less_cases:
  "(of_char a :: nat) < of_char b \<or> a = b \<or> (of_char b :: nat) < of_char a"
  by (metis linorder_neqE_nat of_char_eq_iff)

lemma codeUnitLess_total: "x \<noteq> y \<Longrightarrow> codeUnitLess x y \<or> codeUnitLess y x"
proof (induction x y rule: codeUnitLess.induct)
  case (4 a xs b ys)
  then show ?case using of_char_less_cases [of a b] by auto
qed auto

lemma codeUnit_consistent: "consistent_comparator (SortCompare_default toStr)"
  unfolding consistent_comparator_def SortCompare_default_def
  by (auto dest: codeUnitLess_asym codeUnitLess_trans simp: codeUnitLess_irrefl)
    (metis codeUnitLess_total codeUnitLess_trans)+

lemma codeUnit_separates: "separates (SortCompare_default (id :: string \<Rightarrow> string)) ids"
  unfolding separates_def SortCompare_default_def
  using codeUnitLess_total by (auto split: if_splits)

lemma assign_idem: "assignProtocolIndices (assignProtocolIndices ps) = assignProtocolIndices ps"
  by (rule nth_equalityI) (simp_all add: nth_assign)

lemma unindexed_newParty [simp]: "unindexed (newParty P reg) = newParty P reg"
  by (simp add: unindexed_def newParty_def)

lemma partyId_newParty [simp]: "partyId (newParty P reg) = fst reg"
  by (simp add: newParty_def)

lemma sorted_byPartyId:
  "consistent_comparator (localeCompare P) \<Longrightarrow>
   sorted_wrt (\<lambda>a b. localeCompare P a b \<le> 0) (map partyId (Array_sort (byPartyId P) ps))"
  using sorted_Array_sort [OF consistent_on_key, of "localeCompare P" partyId ps]
  by (simp add: sorted_wrt_map byPartyId_def)

lemma registered_step:
  assumes "consistent_comparator (localeCompare P)" "session this = Some s"
    "registered P regs this"
  shows "registered P (regs @ [(pid, pk)]) (snd (registerParty P pid pk this))"
proof -
  let ?S = "Array_sort (byPartyId P) (parties this @ [newParty P (pid, pk)])"
  have "mset (map unindexed ?S) = image_mset unindexed (mset ?S)" by simp
  also have "\<dots> = mset (map unindexed (parties this)) + {#newParty P (pid, pk)#}"
    by (simp add: mset_Array_sort)
  finally have "mset (map unindexed ?S) = mset (map (newParty P) (regs @ [(pid, pk)]))"
    using assms(3) by (simp add: registered_def)
  then show ?thesis
    unfolding registered_def registerParty_parties [OF assms(2)]
    using sorted_byPartyId [OF assms(1)] by (simp add: unindexed_assign assign_idem)
qed

lemma registered_registerAll:
  assumes "consistent_comparator (localeCompare P)"
  shows "session this = Some s \<Longrightarrow> registered P regs0 this \<Longrightarrow>
         registered P (regs0 @ regs) (registerAll P regs this)"
proof (induction regs arbitrary: this regs0)
  case Nil
  then show ?case by simp
next
  case (Cons reg regs)
  obtain pid pk where reg: "reg = (pid, pk)" by (cases reg)
  let ?next = "snd (registerParty P pid pk this)"
  have "session ?next = Some s" using Cons.prems(1) by (simp add: registerParty_session)
  moreover have "registered P (regs0 @ [(pid, pk)]) ?next"
    using registered_step [OF assms Cons.prems] .
  ultimately have "registered P ((regs0 @ [(pid, pk)]) @ regs) (registerAll P regs ?next)"
    by (rule Cons.IH)
  then show ?case using reg by simp
qed

lemma registered_ids:
  "registered P regs this \<Longrightarrow> mset (map partyId (parties this)) = mset (map fst regs)"
proof -
  assume r: "registered P regs this"
  have "mset (map partyId (parties this)) = image_mset partyId (mset (map unindexed (parties this)))"
    by (simp add: image_mset.compositionality comp_def)
  also have "\<dots> = image_mset partyId (mset (map (newParty P) regs))"
    using r by (simp add: registered_def)
  also have "\<dots> = mset (map fst regs)"
    by (simp add: image_mset.compositionality comp_def)
  finally show ?thesis .
qed

lemma registered_unique:
  assumes c: "consistent_comparator (localeCompare P)"
    and s: "separates (localeCompare P) (map fst regs)"
    and A: "registered P regs A" and B: "registered P regs' B"
    and m: "mset regs' = mset regs" and d: "distinct (map fst regs)"
  shows "parties B = parties A"
proof -
  let ?xs = "map unindexed (parties A)" and ?ys = "map unindexed (parties B)"
  have "mset ?xs = mset ?ys"
    using A B m by (simp add: registered_def)
  moreover have "sorted_wrt (\<lambda>a b. localeCompare P (partyId a) (partyId b) \<le> 0) ?xs"
    and "sorted_wrt (\<lambda>a b. localeCompare P (partyId a) (partyId b) \<le> 0) ?ys"
    using A B by (simp_all add: registered_def sorted_wrt_map)
  moreover have "distinct (map partyId (parties A))"
    using mset_eq_imp_distinct_iff [OF registered_ids [OF A]] d by blast
  then have "distinct (map partyId ?xs)" by (simp add: comp_def)
  moreover have "set (map partyId (parties A)) = set (map fst regs)"
    using registered_ids [OF A] by (metis set_mset_mset)
  then have "separates (localeCompare P) (map partyId (parties A))"
    using s separates_set by blast
  then have "separates (localeCompare P) (map partyId ?xs)" by (simp add: comp_def)
  ultimately have "?xs = ?ys" using sorted_key_unique [OF c, of partyId ?xs ?ys] by blast
  then have "assignProtocolIndices (parties A) = assignProtocolIndices (parties B)"
    by (metis assign_unindexed)
  then show ?thesis using A B by (simp add: registered_def)
qed

lemma registered_lookup:
  assumes c: "consistent_comparator (localeCompare P)"
    and s: "separates (localeCompare P) (map fst regs)"
    and A: "registered P regs A" and d: "distinct (map fst regs)" and pid: "pid \<in> set (map fst regs)"
  shows "lookupProtocolIndex (parties A) pid = Inr (rankOf (localeCompare P) (map fst regs) pid)"
proof -
  let ?ps = "parties A"
  let ?ids = "map partyId ?ps"
  have ids: "mset ?ids = mset (map fst regs)" by (rule registered_ids [OF A])
  then have dist: "distinct ?ids" using d by (metis mset_eq_imp_distinct_iff)
  have "pid \<in> set ?ids" using ids pid by (metis set_mset_mset)
  then obtain i where i: "i < length ?ps" "partyId (?ps ! i) = pid"
    by (auto simp: in_set_conv_nth)
  have "find (\<lambda>p. partyId p = pid) ?ps = Some (?ps ! i)"
    using find_distinct_key [OF dist i(1)] i(2) by simp
  moreover have "?ps ! i = (?ps ! i)\<lparr>protocolIndex := Some i\<rparr>"
    using A i(1) nth_assign [of i ?ps] by (simp add: registered_def)
  then have "protocolIndex (?ps ! i) = Some i"
    by (metis Party.select_convs(4) Party.surjective Party.update_convs(4))
  ultimately have "lookupProtocolIndex ?ps pid = Inr i"
    by (simp add: lookupProtocolIndex_def)
  moreover have "set ?ids = set (map fst regs)" using ids by (metis set_mset_mset)
  then have sep: "separates (localeCompare P) ?ids" using s separates_set by blast
  have "rankOf (localeCompare P) ?ids (?ids ! i) = i"
    using position_is_rank [OF c _ dist sep] A i(1) by (simp add: registered_def)
  then have "rankOf (localeCompare P) (map fst regs) pid = i"
    using rankOf_mset [OF ids] i by simp
  ultimately show ?thesis by simp
qed

lemma registered_start:
  "parties this = [] \<Longrightarrow> registered P [] this"
  by (simp add: registered_def assignProtocolIndices_def)


section \<open>The collation stand-in is a consistent comparator\<close>

lemma collation_cases:
  obtains (before) "codeUnitLess (map foldCase (collationLetters a)) (map foldCase (collationLetters b))"
      "\<not> codeUnitLess (map foldCase (collationLetters b)) (map foldCase (collationLetters a))"
      "collationCompare a b = - 1"
  | (after) "codeUnitLess (map foldCase (collationLetters b)) (map foldCase (collationLetters a))"
      "\<not> codeUnitLess (map foldCase (collationLetters a)) (map foldCase (collationLetters b))"
      "collationCompare a b = 1"
  | (same) "map foldCase (collationLetters a) = map foldCase (collationLetters b)"
      "collationCompare a b =
        (if codeUnitLess (collationLetters b) (collationLetters a) then - 1
         else if codeUnitLess (collationLetters a) (collationLetters b) then 1 else 0)"
proof -
  let ?ka = "map foldCase (collationLetters a)" and ?kb = "map foldCase (collationLetters b)"
  consider "codeUnitLess ?ka ?kb" | "codeUnitLess ?kb ?ka" | "?ka = ?kb"
    using codeUnitLess_total by blast
  then show ?thesis
  proof cases
    case 1
    then have "\<not> codeUnitLess ?kb ?ka" by (rule codeUnitLess_asym)
    with 1 show ?thesis by (intro before) (simp_all add: collationCompare_def Let_def)
  next
    case 2
    then have "\<not> codeUnitLess ?ka ?kb" by (rule codeUnitLess_asym)
    with 2 show ?thesis by (intro after) (simp_all add: collationCompare_def Let_def)
  next
    case 3
    then show ?thesis
      by (intro same) (simp_all add: collationCompare_def Let_def codeUnitLess_irrefl)
  qed
qed

lemma collation_le_iff:
  "collationCompare a b \<le> 0 \<longleftrightarrow>
     codeUnitLess (map foldCase (collationLetters a)) (map foldCase (collationLetters b)) \<or>
     (map foldCase (collationLetters a) = map foldCase (collationLetters b) \<and>
      \<not> codeUnitLess (collationLetters a) (collationLetters b))"
proof (cases a b rule: collation_cases)
  case before
  then show ?thesis by simp
next
  case after
  then show ?thesis using codeUnitLess_irrefl by auto
next
  case same
  then show ?thesis using codeUnitLess_asym codeUnitLess_irrefl by auto
qed

lemma collation_mirror: "(collationCompare a b < 0) = (0 < collationCompare b a)"
proof (cases a b rule: collation_cases)
  case before
  then show ?thesis by (simp add: collationCompare_def Let_def)
next
  case after
  then show ?thesis by (simp add: collationCompare_def Let_def)
next
  case same
  then show ?thesis
    using codeUnitLess_asym [of "collationLetters a" "collationLetters b"]
    by (simp add: collationCompare_def Let_def codeUnitLess_irrefl)
qed

lemma collation_trans:
  assumes "collationCompare a b \<le> 0" "collationCompare b d \<le> 0"
  shows "collationCompare a d \<le> 0"
proof -
  let ?k = "\<lambda>s. map foldCase (collationLetters s)"
  from assms(1) consider (ab) "codeUnitLess (?k a) (?k b)"
    | (ab') "?k a = ?k b" "\<not> codeUnitLess (collationLetters a) (collationLetters b)"
    unfolding collation_le_iff by blast
  then show ?thesis
  proof cases
    case ab
    from assms(2) have "codeUnitLess (?k b) (?k d) \<or> ?k b = ?k d"
      unfolding collation_le_iff by blast
    with ab have "codeUnitLess (?k a) (?k d)" using codeUnitLess_trans by auto
    then show ?thesis unfolding collation_le_iff by simp
  next
    case ab'
    from assms(2) consider (bd) "codeUnitLess (?k b) (?k d)"
      | (bd') "?k b = ?k d" "\<not> codeUnitLess (collationLetters b) (collationLetters d)"
      unfolding collation_le_iff by blast
    then show ?thesis
    proof cases
      case bd
      with ab' show ?thesis unfolding collation_le_iff by simp
    next
      case bd'
      have "\<not> codeUnitLess (collationLetters a) (collationLetters d)"
      proof
        assume ad: "codeUnitLess (collationLetters a) (collationLetters d)"
        show False
        proof (cases "collationLetters a = collationLetters b")
          case True
          with ad bd'(2) show False by simp
        next
          case False
          then have "codeUnitLess (collationLetters b) (collationLetters a)"
            using ab'(2) codeUnitLess_total by blast
          then have "codeUnitLess (collationLetters b) (collationLetters d)"
            using ad by (rule codeUnitLess_trans)
          with bd'(2) show False by simp
        qed
      qed
      with ab'(1) bd'(1) show ?thesis unfolding collation_le_iff by simp
    qed
  qed
qed

lemma collation_consistent: "consistent_comparator collationCompare"
  unfolding consistent_comparator_def
  using collation_mirror collation_trans by blast

lemma collationPlatform_consistent: "consistent_comparator (localeCompare collationPlatform)"
  by (simp add: collationPlatform_def collation_consistent)

lemma mixedParties_separated:
  "separates (localeCompare collationPlatform) (map fst mixedParties)"
  by code_simp

lemma mixedParties_rank:
  "rankOf (localeCompare collationPlatform) (map fst mixedParties) ''Bob'' = 1"
  by code_simp

section \<open>Facts about the example sessions\<close>

lemma codeUnitPlatform_consistent: "consistent_comparator (localeCompare codeUnitPlatform)"
  by (simp add: codeUnitPlatform_def codeUnit_consistent)

lemma codeUnitPlatform_separates: "separates (localeCompare codeUnitPlatform) ids"
  by (simp add: codeUnitPlatform_def codeUnit_separates)

lemma afterThree_parties:
  "parties afterThree =
     [\<lparr>partyId = ''alice'', publicKey = \<lparr>bytes = BufferOf [1]\<rparr>, partyIndex = 0,
       protocolIndex = Some 0\<rparr>,
      \<lparr>partyId = ''bob'', publicKey = \<lparr>bytes = BufferOf [2]\<rparr>, partyIndex = 0,
       protocolIndex = Some 1\<rparr>,
      \<lparr>partyId = ''carol'', publicKey = \<lparr>bytes = BufferOf [3]\<rparr>, partyIndex = 0,
       protocolIndex = Some 2\<rparr>]"
  by (simp add: afterThree_def threeParties_def startKeyGeneration_def validateThreshold_def
      new_CoordinatorService_def registerParty_def Let_def Array_sort_def
      assignProtocolIndices_def codeUnitPlatform_def SortCompare_default_def
      normalizeBytesToBuffer_def Buffer_from_array_def getPartyIndexFromId_def)

lemma afterThree_session:
  "session afterThree = Some \<lparr>threshold = 2, totalParties = 3, keygen_phase = Keygen\<rparr>"
  by (simp add: afterThree_def threeParties_def startKeyGeneration_def validateThreshold_def
      new_CoordinatorService_def registerParty_session Let_def)

lemma afterThree_indexed: "parties_indexed afterThree"
  by (simp add: parties_indexed_def afterThree_parties)

lemma Number_toString_small: "n < 10 \<Longrightarrow> Number_toString n = [digitChar n]"
  by (simp add: Number_toString.simps)


section \<open>Lemmas on startSigning\<close>

lemma mapThrowing_Inr_iff: "mapThrowing f xs = Inr ys \<longleftrightarrow> map f xs = map Inr ys"
proof (induction xs arbitrary: ys)
  case Nil
  then show ?case by auto
next
  case (Cons x xs)
  show ?case
  proof (cases "f x")
    case (Inl e)
    then show ?thesis by (cases ys) auto
  next
    case (Inr v)
    show ?thesis
    proof (cases "mapThrowing f xs")
      case (Inl e)
      then have "\<And>zs. map f xs \<noteq> map Inr zs" using Cons.IH by auto
      with Inl Inr show ?thesis by (cases ys) auto
    next
      case inner: (Inr vs)
      then have "map f xs = map Inr vs" using Cons.IH by simp
      with inner Inr show ?thesis by (cases ys) (auto simp: inj_map_eq_map)
    qed
  qed
qed

lemma lookupProtocolIndex_error:
  "lookupProtocolIndex ps pid = Inl e \<Longrightarrow> e = PlainError"
  by (auto simp: lookupProtocolIndex_def split: option.splits)

lemma mapThrowing_error:
  "(\<And>x e. f x = Inl e \<Longrightarrow> e = err) \<Longrightarrow> mapThrowing f xs = Inl e \<Longrightarrow> e = err"
  by (induction xs arbitrary: e) (auto split: sum.splits)

lemma lookupProtocolIndex_found:
  assumes "list_all (\<lambda>p. protocolIndex p \<noteq> None) ps" "pid \<in> partyId ` set ps"
  shows "\<exists>i. lookupProtocolIndex ps pid = Inr i"
proof -
  from assms(2) have "find (\<lambda>p. partyId p = pid) ps \<noteq> None"
    by (auto simp: find_None_iff)
  then obtain p where p: "find (\<lambda>p. partyId p = pid) ps = Some p" by blast
  then have "p \<in> set ps" by (auto simp: find_Some_iff)
  then obtain i where "protocolIndex p = Some i" using assms(1) by (auto simp: list_all_iff)
  with p show ?thesis by (simp add: lookupProtocolIndex_def)
qed

lemma mapThrowing_lookup_found:
  assumes "list_all (\<lambda>p. protocolIndex p \<noteq> None) ps"
  shows "set xs \<subseteq> partyId ` set ps \<Longrightarrow>
         \<exists>indices. mapThrowing (lookupProtocolIndex ps) xs = Inr indices"
proof (induction xs)
  case Nil
  then show ?case by simp
next
  case (Cons x xs)
  then obtain i where "lookupProtocolIndex ps x = Inr i"
    using lookupProtocolIndex_found [OF assms, of x] by auto
  moreover obtain indices where "mapThrowing (lookupProtocolIndex ps) xs = Inr indices"
    using Cons by auto
  ultimately show ?case by simp
qed

lemma startSigning_too_few:
  "session this = Some s \<Longrightarrow> int (length ids) < threshold s \<Longrightarrow>
   startSigning m ids this = (Inl (ValidationError TooFewSigners), this)"
  by (simp add: startSigning_def validateSigningParties_def)

lemma startSigning_enough:
  assumes "session this = Some s" "threshold s \<le> int (length ids)"
    "mapThrowing (lookupProtocolIndex (parties this))
       (Array_sort (SortCompare_default id) ids) = Inr indices"
  shows "startSigning m ids this =
     (Inr \<lparr>start_message = normalizeMessage m,
           start_signingParties = Array_sort (SortCompare_default Number_toString) indices\<rparr>,
      this\<lparr>signingSession :=
             Some \<lparr>message = normalizeMessage m,
                   signingParties = Array_sort (SortCompare_default id) ids,
                   signing_phase = Signing\<rparr>,
           signingPartyIndices :=
             Some (Array_sort (SortCompare_default Number_toString) indices)\<rparr>)"
  using assms by (simp add: startSigning_def Let_def)

lemma startSigning_succeeds:
  assumes "session this = Some s" "parties_indexed this" "threshold s \<le> int (length ids)"
    "set ids \<subseteq> partyId ` set (parties this)"
  shows "\<exists>r. fst (startSigning m ids this) = Inr r \<and>
          start_message r = normalizeMessage m \<and>
          image_mset Inr (mset (start_signingParties r)) =
            image_mset (lookupProtocolIndex (parties this)) (mset ids) \<and>
          signingPartyIndices (snd (startSigning m ids this)) = Some (start_signingParties r) \<and>
          map_option message (signingSession (snd (startSigning m ids this)))
            = Some (normalizeMessage m)"
proof -
  let ?sorted = "Array_sort (SortCompare_default id) ids"
  have "set ?sorted \<subseteq> partyId ` set (parties this)"
    using assms(4) by (simp add: set_Array_sort)
  then obtain indices where
    ix: "mapThrowing (lookupProtocolIndex (parties this)) ?sorted = Inr indices"
    using mapThrowing_lookup_found assms(2) unfolding parties_indexed_def by blast
  then have "map (lookupProtocolIndex (parties this)) ?sorted = map Inr indices"
    by (simp add: mapThrowing_Inr_iff)
  then have "image_mset (lookupProtocolIndex (parties this)) (mset ?sorted)
             = image_mset Inr (mset indices)"
    by (metis mset_map)
  then have "image_mset Inr (mset (Array_sort (SortCompare_default Number_toString) indices))
             = image_mset (lookupProtocolIndex (parties this)) (mset ids)"
    by (simp add: mset_Array_sort)
  then show ?thesis
    by (simp add: startSigning_enough [OF assms(1,3) ix])
qed

lemma startSigning_stores_message:
  "session this = Some s \<Longrightarrow> threshold s \<le> int (length ids) \<Longrightarrow>
   map_option message (signingSession (snd (startSigning m ids this)))
     = Some (normalizeMessage m)"
  by (simp add: startSigning_def Let_def split: sum.splits)


section \<open>Lemmas on bytes and on collectSharedKeys\<close>

lemma octets_roundtrip:
  "octets (bytes (serializeForHttp (normalizeBytesToBuffer x))) = octets (bytes x)"
  by (cases "bytes x")
    (simp_all add: serializeForHttp_def normalizeBytesToBuffer_def octets_def
      Buffer_from_array_def Array_from_buffer_def comp_def)

lemma octets_normalize:
  "octets (bytes (normalizeBytesToBuffer x)) = octets (bytes x)"
  by (cases "bytes x") (simp_all add: normalizeBytesToBuffer_def octets_def)

lemma Array_sort_Nil_iff: "Array_sort c xs = [] \<longleftrightarrow> xs = []"
  by (metis length_0_conv length_Array_sort)

lemma hd_Array_sort_in: "xs \<noteq> [] \<Longrightarrow> hd (Array_sort c xs) \<in> set xs"
  by (metis Array_sort_Nil_iff hd_in_set set_Array_sort)

lemma bytesToArray_ArrayOf: "bytesToArray (ArrayOf a) = a"
  by (simp add: bytesToArray_def)

lemma normalizeMessage_empty_string:
  "normalizeMessage (MsgString []) = [100, 101, 102, 97, 117, 108, 116]"
  by (simp add: normalizeMessage_def Buffer_from_string_def utf8_char_def)

lemma createEphemeralKey_feeds:
  "keyId this = Some key \<Longrightarrow> key \<noteq> [] \<Longrightarrow>
   createEphemeralKey N m i this w =
     MPCClient_createEphemeralKey N key (ArrayOf (Array_from_buffer (normalizeMessage m))) i w"
  by (simp add: createEphemeralKey_def Let_def)

lemma readyToAggregate_result:
  "fst (collectLocalSignatures codeUnitPlatform stubThresholdSig twoLocalSigs readyToAggregate)
     = Inr \<lparr>res_signature =
              \<lparr>sig_r = \<lparr>bytes = ArrayOf [9]\<rparr>, sig_R = None,
               sig_s = \<lparr>bytes = ArrayOf [1, 2]\<rparr>, sig_S = None\<rparr>,
            res_signatureHex = ''090102'',
            res_aggregatePublicKey = \<lparr>bytes = ArrayOf [9]\<rparr>,
            res_aggregatePublicKeyHex = ''09'',
            res_isValid = True\<rparr>"
  by (simp add: collectLocalSignatures_def readyToAggregate_def twoLocalSigs_def Let_def
      Array_sort_def codeUnitPlatform_def SortCompare_default_def stubThresholdSig_def
      verifyLocalSignatures_def aggregateSignature_def MPCClient_verifySignature_def
      localSigsRust_def arrayifyAggregateR_def aggregateROf_def bytesToArray_def
      messageToArray_def normalizeBytesForRust_def serializeForHttp_def
      Array_from_buffer_def toHex_def octets_def hexDigit_def Buffer_from_array_def)


section \<open>Every stored party carries a protocol index\<close>

lemma new_CoordinatorService_indexed: "parties_indexed new_CoordinatorService"
  by (simp add: parties_indexed_def new_CoordinatorService_def)

lemma startKeyGeneration_indexed:
  "parties_indexed this \<Longrightarrow> parties_indexed (snd (startKeyGeneration t n this))"
  by (simp add: parties_indexed_def startKeyGeneration_def Let_def split: sum.splits)

lemma registerAll_indexed:
  "parties_indexed this \<Longrightarrow> parties_indexed (registerAll P regs this)"
  by (induction regs arbitrary: this) (auto simp: registerParty_indexed)

lemma startSigning_parties: "parties (snd (startSigning m ids this)) = parties this"
  by (simp add: startSigning_def Let_def split: option.splits sum.splits)

lemma collectSharedKeys_parties: "parties (snd (collectSharedKeys P psk this)) = parties this"
  by (simp add: collectSharedKeys_def Let_def split: sum.splits)

section \<open>Key generation sessions\<close>

text \<open>
  C7. \<open>startKeyGeneration(threshold, totalParties)\<close> throws a validation
  error exactly when \<open>threshold < 2\<close> or \<open>threshold > totalParties\<close>. For
  every pair with \<open>2 \<le> threshold \<le> totalParties\<close> it returns the new session
  and leaves it stored with the party list, the commitments, the blind
  factors, the VSS schemes, the secret shares and the shared keys all empty.
\<close>

theorem startKeyGeneration_validates_and_clears:
  "((\<exists>r. fst (startKeyGeneration t n this) = Inl (ValidationError r))
      \<longleftrightarrow> (t < 2 \<or> t > n)) \<and>
   (2 \<le> t \<and> t \<le> n \<longrightarrow>
      (let s = \<lparr>threshold = t, totalParties = n, keygen_phase = Keygen\<rparr>;
           this' = snd (startKeyGeneration t n this)
       in fst (startKeyGeneration t n this) = Inr s \<and>
          session this' = Some s \<and> parties this' = [] \<and> commitments this' = [] \<and>
          blindFactors this' = [] \<and> allVssSchemes this' = [] \<and>
          allSecretShares this' = [] \<and> sharedKeys this' = [])) \<and>
   (t < 2 \<or> t > n \<longrightarrow> snd (startKeyGeneration t n this) = this)"
  by (auto simp: startKeyGeneration_def validateThreshold_def Let_def)

theorem startKeyGeneration_validates_and_clears_witness:
  "fst (startKeyGeneration 2 3 (new_CoordinatorService\<lparr>commitments := [\<lparr>bytes = ArrayOf [1]\<rparr>]\<rparr>))
     = Inr \<lparr>threshold = 2, totalParties = 3, keygen_phase = Keygen\<rparr> \<and>
   commitments (snd (startKeyGeneration 2 3 (new_CoordinatorService\<lparr>commitments := [\<lparr>bytes = ArrayOf [1]\<rparr>]\<rparr>))) = [] \<and>
   fst (startKeyGeneration 1 3 new_CoordinatorService) = Inl (ValidationError ThresholdBelowTwo) \<and>
   fst (startKeyGeneration 4 3 new_CoordinatorService) = Inl (ValidationError ThresholdAboveTotal)"
  using startKeyGeneration_validates_and_clears [of 2 3 "new_CoordinatorService\<lparr>commitments := [\<lparr>bytes = ArrayOf [1]\<rparr>]\<rparr>"]
  by (simp add: startKeyGeneration_def validateThreshold_def Let_def)


section \<open>Registration\<close>

text \<open>
  C9 (as amended). For distinct party identifiers no two of which
  \<open>localeCompare\<close> compares as equal, registered with \<open>registerParty\<close> after
  \<open>startKeyGeneration\<close> in whatever order the calls arrive, the protocol
  index found for each identifier is its rank among the registered
  identifiers in the order of \<open>localeCompare\<close>, and a permutation of the
  registrations leaves the same party list, hence the same assignment.
  \<open>localeCompare\<close> is a consistent comparator, as a collation is.
\<close>

theorem registerParty_index_is_rank:
  assumes "consistent_comparator (localeCompare P)"
    and "separates (localeCompare P) (map fst regs)"
    and "2 \<le> t" and "t \<le> n"
    and "distinct (map fst regs)"
  shows
    "(\<forall>pid \<in> set (map fst regs).
        lookupProtocolIndex
          (parties (registerAll P regs (snd (startKeyGeneration t n this)))) pid
        = Inr (rankOf (localeCompare P) (map fst regs) pid)) \<and>
     (\<forall>regs'. mset regs' = mset regs \<longrightarrow>
        parties (registerAll P regs' (snd (startKeyGeneration t n this)))
        = parties (registerAll P regs (snd (startKeyGeneration t n this))))"
proof -
  let ?start = "snd (startKeyGeneration t n this)"
  have sess: "session ?start = Some \<lparr>threshold = t, totalParties = n, keygen_phase = Keygen\<rparr>"
    and empty: "parties ?start = []"
    using assms(3,4) by (simp_all add: startKeyGeneration_def validateThreshold_def Let_def)
  have reg: "registered P regs' (registerAll P regs' ?start)" for regs'
    using registered_registerAll [OF assms(1) sess registered_start [OF empty], of regs'] by simp
  show ?thesis
    using registered_lookup [OF assms(1,2) reg assms(5)]
      registered_unique [OF assms(1,2) reg reg _ assms(5)]
    by blast
qed

theorem registerParty_index_is_rank_witness:
  "lookupProtocolIndex
     (parties (registerAll collationPlatform mixedParties
        (snd (startKeyGeneration 2 3 new_CoordinatorService)))) ''Bob'' = Inr 1 \<and>
   parties (registerAll collationPlatform (rev mixedParties)
        (snd (startKeyGeneration 2 3 new_CoordinatorService)))
   = parties (registerAll collationPlatform mixedParties
        (snd (startKeyGeneration 2 3 new_CoordinatorService)))"
proof -
  have d: "distinct (map fst mixedParties)" by (simp add: mixedParties_def)
  have t1: "(2::int) \<le> 2" and t2: "(2::int) \<le> 3" by simp_all
  note T = registerParty_index_is_rank [OF collationPlatform_consistent
      mixedParties_separated t1 t2 d, of new_CoordinatorService]
  have m: "''Bob'' \<in> set (map fst mixedParties)" by (simp add: mixedParties_def)
  have p: "mset (rev mixedParties) = mset mixedParties" by simp
  from T have "lookupProtocolIndex
     (parties (registerAll collationPlatform mixedParties
        (snd (startKeyGeneration 2 3 new_CoordinatorService)))) ''Bob''
     = Inr (rankOf (localeCompare collationPlatform) (map fst mixedParties) ''Bob'')"
    using m by blast
  moreover from T have "parties (registerAll collationPlatform (rev mixedParties)
        (snd (startKeyGeneration 2 3 new_CoordinatorService)))
   = parties (registerAll collationPlatform mixedParties
        (snd (startKeyGeneration 2 3 new_CoordinatorService)))"
    using p by blast
  ultimately show ?thesis using mixedParties_rank by simp
qed

text \<open>
  The claim as stated fails. The identifiers \<open>a\<close> and \<open>a\<close> followed by
  U+0001 are distinct and compare as 0, so the stable sort keeps them in
  arrival order: \<open>a\<close> gets index 0 when it registers first and index 1 when
  it registers second. And the order is not the lexicographic one: of \<open>B\<close>
  and \<open>a\<close>, \<open>a\<close> gets index 0, while its rank by code units is 1.
\<close>

theorem registerParty_order_counterexample:
  "lookupProtocolIndex
     (parties (registerAll collationPlatform
        [(''a'', \<lparr>bytes = ArrayOf [1]\<rparr>), ([CHR ''a'', CHR 0x01], \<lparr>bytes = ArrayOf [2]\<rparr>)]
        (snd (startKeyGeneration 2 2 new_CoordinatorService)))) ''a'' = Inr 0 \<and>
   lookupProtocolIndex
     (parties (registerAll collationPlatform
        [([CHR ''a'', CHR 0x01], \<lparr>bytes = ArrayOf [2]\<rparr>), (''a'', \<lparr>bytes = ArrayOf [1]\<rparr>)]
        (snd (startKeyGeneration 2 2 new_CoordinatorService)))) ''a'' = Inr 1 \<and>
   lookupProtocolIndex
     (parties (registerAll collationPlatform
        [(''B'', \<lparr>bytes = ArrayOf [2]\<rparr>), (''a'', \<lparr>bytes = ArrayOf [1]\<rparr>)]
        (snd (startKeyGeneration 2 2 new_CoordinatorService)))) ''a'' = Inr 0 \<and>
   rankOf (SortCompare_default id) [''B'', ''a''] ''a'' = 1"
  by code_simp

text \<open>
  C3 (as amended). \<open>registerParty\<close> has no duplicate check. With a session
  started, every call succeeds, also one whose identifier is already
  registered: it reports one party more than before, and the stored
  identifiers are the old ones plus the new one, so a repeated identifier is
  then stored twice. The only failing call is one made before any session
  was started, and it leaves the coordinator as it was.
\<close>

theorem registerParty_accepts_duplicates:
  "(session this = None \<longrightarrow> registerParty P pid pk this = (Inl SessionError, this)) \<and>
   (session this \<noteq> None \<longrightarrow>
      (\<exists>i. fst (registerParty P pid pk this) =
             Inr \<lparr>resp_partyIndex = i, resp_totalParties = Suc (length (parties this))\<rparr>) \<and>
      mset (map partyId (parties (snd (registerParty P pid pk this)))) =
        add_mset pid (mset (map partyId (parties this))))"
proof (intro conjI impI)
  assume "session this = None"
  then show "registerParty P pid pk this = (Inl SessionError, this)"
    by (rule registerParty_no_session)
next
  assume "session this \<noteq> None"
  then obtain s where s: "session this = Some s" by blast
  show "\<exists>i. fst (registerParty P pid pk this) =
             Inr \<lparr>resp_partyIndex = i, resp_totalParties = Suc (length (parties this))\<rparr>"
    by (rule registerParty_response [OF s])
  show "mset (map partyId (parties (snd (registerParty P pid pk this)))) =
        add_mset pid (mset (map partyId (parties this)))"
    by (simp add: registerParty_parties [OF s] mset_Array_sort)
qed

theorem registerParty_accepts_duplicates_witness:
  "session afterThree \<noteq> None \<and>
   fst (registerParty codeUnitPlatform ''bob'' \<lparr>bytes = ArrayOf [9]\<rparr> afterThree) =
          Inr \<lparr>resp_partyIndex = 1, resp_totalParties = 4\<rparr> \<and>
   mset (map partyId (parties (snd (registerParty codeUnitPlatform ''bob''
      \<lparr>bytes = ArrayOf [9]\<rparr> afterThree)))) = {#''bob'', ''alice'', ''bob'', ''carol''#} \<and>
   session new_CoordinatorService = None \<and>
   registerParty codeUnitPlatform ''bob'' \<lparr>bytes = ArrayOf [9]\<rparr> new_CoordinatorService
     = (Inl SessionError, new_CoordinatorService)"
  using registerParty_accepts_duplicates [of afterThree codeUnitPlatform "''bob''"
      "\<lparr>bytes = ArrayOf [9]\<rparr>"]
    registerParty_accepts_duplicates [of new_CoordinatorService codeUnitPlatform "''bob''"
      "\<lparr>bytes = ArrayOf [9]\<rparr>"]
  by (simp add: registerParty_def afterThree_session afterThree_parties Let_def Array_sort_def
      assignProtocolIndices_def codeUnitPlatform_def SortCompare_default_def
      normalizeBytesToBuffer_def Buffer_from_array_def getPartyIndexFromId_def
      new_CoordinatorService_def)

text \<open>
  The claim as stated fails: registering \<open>alice\<close> a second time returns
  index 0 of 4 parties, and the list then holds \<open>alice\<close> twice.
\<close>

theorem registerParty_duplicate_counterexample:
  "fst (registerParty codeUnitPlatform ''alice'' \<lparr>bytes = ArrayOf [9]\<rparr> afterThree)
     = Inr \<lparr>resp_partyIndex = 0, resp_totalParties = 4\<rparr> \<and>
   map partyId (parties (snd (registerParty codeUnitPlatform ''alice'' \<lparr>bytes = ArrayOf [9]\<rparr>
      afterThree)))
     = [''alice'', ''alice'', ''bob'', ''carol'']"
  by (simp add: registerParty_def afterThree_session afterThree_parties Let_def Array_sort_def
      assignProtocolIndices_def codeUnitPlatform_def SortCompare_default_def
      normalizeBytesToBuffer_def Buffer_from_array_def getPartyIndexFromId_def)

section \<open>Shared keys\<close>

text \<open>
  C1 (as amended). \<open>collectSharedKeys\<close> does not compare the reported
  \<open>y\<close> values. For every non-empty input it succeeds and returns as
  \<open>aggregatePublicKey\<close> the octets of the \<open>y\<close> reported by the party whose
  identifier sorts first; so when all reported \<open>y\<close> values are the octets
  \<open>Y\<close>, the returned and the stored key are \<open>Y\<close>. An empty input fails with
  a validation error.
\<close>

theorem collectSharedKeys_takes_first_key:
  "(psk = [] \<longrightarrow> fst (collectSharedKeys P psk this) = Inl (ValidationError NoSharedKeys)) \<and>
   (psk \<noteq> [] \<longrightarrow>
      (\<exists>res. fst (collectSharedKeys P psk this) = Inr res \<and>
         octets (bytes (out_aggregatePublicKey res)) =
           octets (bytes (sk_y (snd (hd (Array_sort (\<lambda>a b. localeCompare P (fst a) (fst b))
                                        psk))))))) \<and>
   (psk \<noteq> [] \<and> list_all (\<lambda>e. octets (bytes (sk_y (snd e))) = Y) psk \<longrightarrow>
      (\<exists>res. fst (collectSharedKeys P psk this) = Inr res \<and>
         octets (bytes (out_aggregatePublicKey res)) = Y \<and>
         map_option (\<lambda>k. octets (bytes k))
           (aggregatePublicKey (snd (collectSharedKeys P psk this))) = Some Y))"
proof -
  let ?sorted = "Array_sort (\<lambda>a b. localeCompare P (fst a) (fst b)) psk"
  have empty: "fst (collectSharedKeys P [] this) = Inl (ValidationError NoSharedKeys)"
    by (simp add: collectSharedKeys_def Array_sort_def aggregateKey_def)
  have first: "\<exists>res. fst (collectSharedKeys P psk this) = Inr res \<and>
         octets (bytes (out_aggregatePublicKey res)) = octets (bytes (sk_y (snd (hd ?sorted)))) \<and>
         map_option (\<lambda>k. octets (bytes k))
           (aggregatePublicKey (snd (collectSharedKeys P psk this)))
           = Some (octets (bytes (sk_y (snd (hd ?sorted)))))"
    if "psk \<noteq> []"
  proof -
    from that obtain e es where "?sorted = e # es"
      by (cases ?sorted) (simp_all add: Array_sort_Nil_iff)
    then show ?thesis
      by (simp add: collectSharedKeys_def aggregateKey_def Let_def octets_roundtrip
          octets_normalize)
  qed
  have same: "octets (bytes (sk_y (snd (hd ?sorted)))) = Y"
    if "psk \<noteq> []" "list_all (\<lambda>e. octets (bytes (sk_y (snd e))) = Y) psk"
    using hd_Array_sort_in [OF that(1)] that(2) by (auto simp: list_all_iff)
  show ?thesis using empty first same by (metis (no_types, lifting))
qed

theorem collectSharedKeys_takes_first_key_witness:
  "fst (collectSharedKeys codeUnitPlatform
          [(''bob'', \<lparr>sk_y = \<lparr>bytes = ArrayOf [7]\<rparr>, sk_xI = \<lparr>bytes = ArrayOf [20]\<rparr>,
                      sk_x_i = None, sk_prefix = None\<rparr>),
           (''alice'', \<lparr>sk_y = \<lparr>bytes = BufferOf [7]\<rparr>, sk_xI = \<lparr>bytes = ArrayOf [10]\<rparr>,
                        sk_x_i = None, sk_prefix = None\<rparr>)]
          afterThree)
     = Inr \<lparr>out_aggregatePublicKey = \<lparr>bytes = ArrayOf [7]\<rparr>,
            out_aggregatePublicKeyHex = ''07'',
            out_sharedKeys =
              [\<lparr>sk_y = \<lparr>bytes = ArrayOf [7]\<rparr>, sk_xI = \<lparr>bytes = ArrayOf [10]\<rparr>,
                sk_x_i = None, sk_prefix = None\<rparr>,
               \<lparr>sk_y = \<lparr>bytes = ArrayOf [7]\<rparr>, sk_xI = \<lparr>bytes = ArrayOf [20]\<rparr>,
                sk_x_i = None, sk_prefix = None\<rparr>]\<rparr> \<and>
   fst (collectSharedKeys codeUnitPlatform [] afterThree) = Inl (ValidationError NoSharedKeys)"
  using collectSharedKeys_takes_first_key [of
      "[(''bob'', \<lparr>sk_y = \<lparr>bytes = ArrayOf [7]\<rparr>, sk_xI = \<lparr>bytes = ArrayOf [20]\<rparr>,
                   sk_x_i = None, sk_prefix = None\<rparr>),
        (''alice'', \<lparr>sk_y = \<lparr>bytes = BufferOf [7]\<rparr>, sk_xI = \<lparr>bytes = ArrayOf [10]\<rparr>,
                     sk_x_i = None, sk_prefix = None\<rparr>)]"
      codeUnitPlatform afterThree "[7]"]
    collectSharedKeys_takes_first_key [of "[]" codeUnitPlatform afterThree "[]"]
  by (simp add: collectSharedKeys_def aggregateKey_def Let_def Array_sort_def
      codeUnitPlatform_def SortCompare_default_def normalizeBytesToBuffer_def
      serializeForHttp_def Buffer_from_array_def Array_from_buffer_def toHex_def octets_def
      hexDigit_def)

text \<open>
  The claim as stated fails: \<open>alice\<close> reports \<open>y = [1]\<close>, \<open>bob\<close> reports
  \<open>y = [2]\<close>, and the call returns \<open>alice\<close>'s key instead of failing.
\<close>

theorem collectSharedKeys_mismatch_counterexample:
  "octets (bytes \<lparr>bytes = ArrayOf [1]\<rparr>) \<noteq> octets (bytes \<lparr>bytes = ArrayOf [2]\<rparr>) \<and>
   fst (collectSharedKeys codeUnitPlatform
          [(''bob'', \<lparr>sk_y = \<lparr>bytes = ArrayOf [2]\<rparr>, sk_xI = \<lparr>bytes = ArrayOf [20]\<rparr>,
                      sk_x_i = None, sk_prefix = None\<rparr>),
           (''alice'', \<lparr>sk_y = \<lparr>bytes = ArrayOf [1]\<rparr>, sk_xI = \<lparr>bytes = ArrayOf [10]\<rparr>,
                        sk_x_i = None, sk_prefix = None\<rparr>)]
          afterThree)
     = Inr \<lparr>out_aggregatePublicKey = \<lparr>bytes = ArrayOf [1]\<rparr>,
            out_aggregatePublicKeyHex = ''01'',
            out_sharedKeys =
              [\<lparr>sk_y = \<lparr>bytes = ArrayOf [1]\<rparr>, sk_xI = \<lparr>bytes = ArrayOf [10]\<rparr>,
                sk_x_i = None, sk_prefix = None\<rparr>,
               \<lparr>sk_y = \<lparr>bytes = ArrayOf [2]\<rparr>, sk_xI = \<lparr>bytes = ArrayOf [20]\<rparr>,
                sk_x_i = None, sk_prefix = None\<rparr>]\<rparr>"
  by (simp add: collectSharedKeys_def aggregateKey_def Let_def Array_sort_def
      codeUnitPlatform_def SortCompare_default_def normalizeBytesToBuffer_def
      serializeForHttp_def Buffer_from_array_def Array_from_buffer_def toHex_def octets_def
      hexDigit_def)

section \<open>Signing sessions\<close>

text \<open>
  C8. In a coordinator with a session of threshold \<open>t\<close> whose stored
  parties all carry a protocol index (every state the methods leave),
  \<open>startSigning\<close> with fewer than \<open>t\<close> identifiers throws the
  insufficient-signers validation error and changes nothing; with at least
  \<open>t\<close> identifiers, all registered, it succeeds, returns the normalized
  message with the protocol indices of the named parties, and stores both.
  With three parties and threshold 2, a single signer fails.
\<close>

theorem startSigning_requires_threshold:
  assumes "session this = Some s" and "parties_indexed this"
  shows "(int (length ids) < threshold s \<longrightarrow>
            startSigning m ids this = (Inl (ValidationError TooFewSigners), this)) \<and>
         (threshold s \<le> int (length ids) \<and> set ids \<subseteq> partyId ` set (parties this) \<longrightarrow>
            (\<exists>r. fst (startSigning m ids this) = Inr r \<and>
               start_message r = normalizeMessage m \<and>
               image_mset Inr (mset (start_signingParties r)) =
                 image_mset (lookupProtocolIndex (parties this)) (mset ids) \<and>
               signingPartyIndices (snd (startSigning m ids this))
                 = Some (start_signingParties r) \<and>
               map_option message (signingSession (snd (startSigning m ids this)))
                 = Some (normalizeMessage m)))"
  using startSigning_too_few [OF assms(1)] startSigning_succeeds [OF assms] by blast

theorem startSigning_requires_threshold_witness:
  "startSigning (MsgString ''hi'') [''alice''] afterThree
     = (Inl (ValidationError TooFewSigners), afterThree) \<and>
   fst (startSigning (MsgString ''hi'') [''carol'', ''alice''] afterThree)
     = Inr \<lparr>start_message = [104, 105], start_signingParties = [0, 2]\<rparr>"
  using startSigning_requires_threshold [OF afterThree_session afterThree_indexed,
      of "[''alice'']" "MsgString ''hi''"]
    startSigning_requires_threshold [OF afterThree_session afterThree_indexed,
      of "[''carol'', ''alice'']" "MsgString ''hi''"]
  by (simp add: startSigning_def afterThree_session afterThree_parties Let_def
      validateSigningParties_def Array_sort_def SortCompare_default_def
      lookupProtocolIndex_def normalizeMessage_def Buffer_from_string_def utf8_char_def
      Number_toString_small digitChar_def)

text \<open>
  C10. \<open>startSigning\<close> never throws the error of \<open>validateSigningParties\<close>
  for more signers than parties: the validation runs only below the
  threshold, where its first check fires. So a call with at least threshold
  identifiers, all registered, succeeds also when the list is longer than
  \<open>totalParties\<close> or repeats identifiers.
\<close>

theorem startSigning_never_too_many:
  "fst (startSigning m ids this) \<noteq> Inl (ValidationError TooManySigners) \<and>
   (session this \<noteq> None \<and> parties_indexed this \<and>
    (\<forall>s. session this = Some s \<longrightarrow> threshold s \<le> int (length ids)) \<and>
    set ids \<subseteq> partyId ` set (parties this) \<longrightarrow>
      (\<exists>r. fst (startSigning m ids this) = Inr r))"
proof (intro conjI impI)
  show "fst (startSigning m ids this) \<noteq> Inl (ValidationError TooManySigners)"
  proof
    assume bad: "fst (startSigning m ids this) = Inl (ValidationError TooManySigners)"
    show False
    proof (cases "session this")
      case None
      with bad show False by (simp add: startSigning_def)
    next
      case (Some s)
      show False
      proof (cases "int (length ids) < threshold s")
        case True
        with bad Some show False by (simp add: startSigning_too_few)
      next
        case False
        show False
        proof (cases "mapThrowing (lookupProtocolIndex (parties this))
                        (Array_sort (SortCompare_default id) ids)")
          case (Inl e)
          then have "e = PlainError"
            using mapThrowing_error [of "lookupProtocolIndex (parties this)" PlainError]
              lookupProtocolIndex_error by blast
          with bad Some False Inl show False by (simp add: startSigning_def Let_def)
        next
          case (Inr indices)
          with bad Some False show False by (simp add: startSigning_def Let_def)
        qed
      qed
    qed
  qed
next
  assume h: "session this \<noteq> None \<and> parties_indexed this \<and>
    (\<forall>s. session this = Some s \<longrightarrow> threshold s \<le> int (length ids)) \<and>
    set ids \<subseteq> partyId ` set (parties this)"
  then obtain s where s: "session this = Some s" by blast
  with h have "threshold s \<le> int (length ids)" by blast
  then show "\<exists>r. fst (startSigning m ids this) = Inr r"
    using startSigning_succeeds [OF s, of ids m] h by blast
qed

theorem startSigning_never_too_many_witness:
  "length [''bob'', ''alice'', ''bob'', ''alice''] > 3 \<and>
   fst (startSigning (MsgString ''hi'') [''bob'', ''alice'', ''bob'', ''alice''] afterThree)
     = Inr \<lparr>start_message = [104, 105], start_signingParties = [0, 0, 1, 1]\<rparr>"
  using startSigning_never_too_many [of "MsgString ''hi''"
      "[''bob'', ''alice'', ''bob'', ''alice'']" afterThree]
  by (simp add: startSigning_def afterThree_session afterThree_parties Let_def
      validateSigningParties_def Array_sort_def SortCompare_default_def
      lookupProtocolIndex_def normalizeMessage_def Buffer_from_string_def utf8_char_def
      Number_toString_small digitChar_def)

text \<open>
  C2. The returned signing subset should be in ascending numeric order.
  \<open>sort()\<close> without a comparator orders the indices by their decimal
  strings: with eleven parties and the signers of indices 2 and 10, the
  method returns 10 before 2.
\<close>

theorem startSigning_indices_out_of_order:
  "fst (startSigning (MsgString ''hi'') [''p02'', ''p10''] afterEleven)
     = Inr \<lparr>start_message = [104, 105], start_signingParties = [10, 2]\<rparr>"
  by code_simp

section \<open>The empty message\<close>

text \<open>
  C6 (as amended). For the empty Buffer and the empty number array, the
  message stored by \<open>startSigning\<close> and the message \<open>createEphemeralKey\<close>
  hands to the client for nonce derivation is the empty byte sequence. For
  the empty string it is the seven octets of \<open>default\<close>, which
  \<open>normalizeMessage\<close> substitutes for a falsy string.
\<close>

theorem empty_message_is_kept_or_replaced:
  "(session coordinator = Some s \<and> threshold s \<le> int (length ids) \<longrightarrow>
      map_option message (signingSession (snd (startSigning (MsgBuffer []) ids coordinator)))
        = Some [] \<and>
      map_option message (signingSession (snd (startSigning (MsgArray []) ids coordinator)))
        = Some [] \<and>
      map_option message (signingSession (snd (startSigning (MsgString []) ids coordinator)))
        = Some [100, 101, 102, 97, 117, 108, 116]) \<and>
   (keyId agent = Some key \<and> key \<noteq> [] \<longrightarrow>
      createEphemeralKey N (MsgBuffer []) i agent w
        = MPCClient_createEphemeralKey N key (ArrayOf []) i w \<and>
      createEphemeralKey N (MsgArray []) i agent w
        = MPCClient_createEphemeralKey N key (ArrayOf []) i w \<and>
      createEphemeralKey N (MsgString []) i agent w
        = MPCClient_createEphemeralKey N key
            (ArrayOf [100, 101, 102, 97, 117, 108, 116]) i w)"
proof (intro conjI impI)
  assume h: "session coordinator = Some s \<and> threshold s \<le> int (length ids)"
  then have s1: "session coordinator = Some s" and s2: "threshold s \<le> int (length ids)"
    by simp_all
  note st = startSigning_stores_message [OF s1 s2]
  show "map_option message (signingSession (snd (startSigning (MsgBuffer []) ids coordinator)))
        = Some []"
    by (simp add: st normalizeMessage_def)
  show "map_option message (signingSession (snd (startSigning (MsgArray []) ids coordinator)))
        = Some []"
    by (simp add: st normalizeMessage_def Buffer_from_array_def)
  show "map_option message (signingSession (snd (startSigning (MsgString []) ids coordinator)))
        = Some [100, 101, 102, 97, 117, 108, 116]"
    by (simp add: st normalizeMessage_empty_string)
next
  assume h: "keyId agent = Some key \<and> key \<noteq> []"
  then have k1: "keyId agent = Some key" and k2: "key \<noteq> []" by simp_all
  note fd = createEphemeralKey_feeds [OF k1 k2]
  show "createEphemeralKey N (MsgBuffer []) i agent w
        = MPCClient_createEphemeralKey N key (ArrayOf []) i w"
    by (simp add: fd normalizeMessage_def Array_from_buffer_def)
  show "createEphemeralKey N (MsgArray []) i agent w
        = MPCClient_createEphemeralKey N key (ArrayOf []) i w"
    by (simp add: fd normalizeMessage_def Array_from_buffer_def Buffer_from_array_def)
  show "createEphemeralKey N (MsgString []) i agent w
        = MPCClient_createEphemeralKey N key
            (ArrayOf [100, 101, 102, 97, 117, 108, 116]) i w"
    by (simp add: fd normalizeMessage_empty_string Array_from_buffer_def)
qed

theorem empty_message_is_kept_or_replaced_witness:
  "map_option message
     (signingSession (snd (startSigning (MsgBuffer []) [''alice'', ''bob''] afterThree)))
     = Some [] \<and>
   fst (createEphemeralKey stubThresholdSig (MsgArray []) 0
          \<lparr>service_partyId = ''alice'', keyId = Some ''key-0'', sharedKey = None\<rparr> (1, []))
     = Inr \<lparr>ephKeyId = ''eph-1'', ephR = \<lparr>bytes = ArrayOf []\<rparr>\<rparr>"
proof -
  let ?agent = "\<lparr>service_partyId = ''alice'', keyId = Some ''key-0'', sharedKey = None\<rparr>"
  note T = empty_message_is_kept_or_replaced [where coordinator = afterThree
      and s = "\<lparr>threshold = 2, totalParties = 3, keygen_phase = Keygen\<rparr>"
      and ids = "[''alice'', ''bob'']" and agent = ?agent and key = "''key-0''"
      and N = stubThresholdSig and i = 0 and w = "(1, [])"]
  have s: "session afterThree = Some \<lparr>threshold = 2, totalParties = 3, keygen_phase = Keygen\<rparr> \<and>
      threshold \<lparr>threshold = 2, totalParties = 3, keygen_phase = Keygen\<rparr>
        \<le> int (length [''alice'', ''bob''])"
    by (simp add: afterThree_session)
  have k: "keyId ?agent = Some ''key-0'' \<and> ''key-0'' \<noteq> []" by simp
  have "map_option message
     (signingSession (snd (startSigning (MsgBuffer []) [''alice'', ''bob''] afterThree)))
     = Some []"
    using T [THEN conjunct1, THEN mp, OF s] by (rule conjunct1)
  moreover have "createEphemeralKey stubThresholdSig (MsgArray []) 0 ?agent (1, [])
        = MPCClient_createEphemeralKey stubThresholdSig ''key-0'' (ArrayOf []) 0 (1, [])"
    using T [THEN conjunct2, THEN mp, OF k] by (rule conjunct2 [THEN conjunct1])
  moreover have "fst (MPCClient_createEphemeralKey stubThresholdSig ''key-0'' (ArrayOf []) 0
        (1, [])) = Inr \<lparr>ephKeyId = ''eph-1'', ephR = \<lparr>bytes = ArrayOf []\<rparr>\<rparr>"
    by (simp add: MPCClient_createEphemeralKey_def stubThresholdSig_def
        Number_toString_small digitChar_def)
  ultimately show ?thesis by simp
qed

text \<open>
  The claim as stated fails for the empty string: the stored message and
  the message that reaches the nonce derivation are \<open>default\<close>.
\<close>

theorem empty_string_message_counterexample:
  "map_option message
     (signingSession (snd (startSigning (MsgString []) [''alice'', ''bob''] afterThree)))
     = Some [100, 101, 102, 97, 117, 108, 116] \<and>
   fst (createEphemeralKey stubThresholdSig (MsgString []) 0
          \<lparr>service_partyId = ''alice'', keyId = Some ''key-0'', sharedKey = None\<rparr> (1, []))
     = Inr \<lparr>ephKeyId = ''eph-1'', ephR = \<lparr>bytes = ArrayOf [100, 101, 102, 97, 117, 108, 116]\<rparr>\<rparr>"
  by (simp add: startSigning_stores_message [OF afterThree_session]
      normalizeMessage_empty_string createEphemeralKey_def MPCClient_createEphemeralKey_def
      stubThresholdSig_def Let_def Array_from_buffer_def Number_toString_small digitChar_def)

section \<open>Aggregation\<close>

text \<open>
  C5. Whenever \<open>collectLocalSignatures\<close> returns a result, the flag
  \<open>isValid\<close> of the result is what the verification of the native module
  returned for the aggregated signature, the message stored in the signing
  session and the stored aggregate public key, and the result carries that
  same signature and key.
\<close>

theorem collectLocalSignatures_validity_flag:
  assumes "fst (collectLocalSignatures P N partyLocalSigs this) = Inr res"
  shows "\<exists>signing aggregate signature.
           signingSession this = Some signing \<and>
           aggregatePublicKey this = Some aggregate \<and>
           verifySignature N (bytesToArray (bytes (sig_r signature)))
             (bytesToArray (bytes (sig_s signature))) (Array_from_buffer (message signing))
             (bytesToArray (bytes aggregate)) = Inr (res_isValid res) \<and>
           res_signature res =
             \<lparr>sig_r = serializeForHttp (sig_r signature), sig_R = None,
              sig_s = serializeForHttp (sig_s signature), sig_S = None\<rparr> \<and>
           res_aggregatePublicKey res = serializeForHttp aggregate \<and>
           (\<exists>vssSum localSigs indices aggregateR.
              signingPartyIndices this = Some indices \<and>
              aggregateSignature N vssSum localSigs indices aggregateR = Inr signature)"
  using assms
  by (fastforce simp: collectLocalSignatures_def Let_def MPCClient_verifySignature_def
      messageToArray_def bytesToArray_ArrayOf
      split: option.splits list.splits sum.splits prod.splits)

theorem collectLocalSignatures_validity_flag_witness:
  "fst (collectLocalSignatures codeUnitPlatform stubThresholdSig twoLocalSigs readyToAggregate)
     = Inr \<lparr>res_signature =
              \<lparr>sig_r = \<lparr>bytes = ArrayOf [9]\<rparr>, sig_R = None,
               sig_s = \<lparr>bytes = ArrayOf [1, 2]\<rparr>, sig_S = None\<rparr>,
            res_signatureHex = ''090102'',
            res_aggregatePublicKey = \<lparr>bytes = ArrayOf [9]\<rparr>,
            res_aggregatePublicKeyHex = ''09'',
            res_isValid = True\<rparr> \<and>
   (\<exists>signature :: Signature.
      verifySignature stubThresholdSig (bytesToArray (bytes (sig_r signature)))
        (bytesToArray (bytes (sig_s signature))) [104, 105] [9] = Inr True)"
proof -
  have ss: "signingSession readyToAggregate =
      Some \<lparr>message = [104, 105], signingParties = [''alice'', ''bob''],
            signing_phase = Signing\<rparr>"
    and ag: "aggregatePublicKey readyToAggregate = Some \<lparr>bytes = BufferOf [9]\<rparr>"
    by (simp_all add: readyToAggregate_def)
  from collectLocalSignatures_validity_flag [OF readyToAggregate_result]
  obtain signing :: SigningSession and aggregate :: PublicKey and signature :: Signature
    where a: "signingSession readyToAggregate = Some signing"
    and b: "aggregatePublicKey readyToAggregate = Some aggregate"
    and c: "verifySignature stubThresholdSig (bytesToArray (bytes (sig_r signature)))
             (bytesToArray (bytes (sig_s signature))) (Array_from_buffer (message signing))
             (bytesToArray (bytes aggregate))
           = Inr (res_isValid
               \<lparr>res_signature =
                  \<lparr>sig_r = \<lparr>bytes = ArrayOf [9]\<rparr>, sig_R = None,
                   sig_s = \<lparr>bytes = ArrayOf [1, 2]\<rparr>, sig_S = None\<rparr>,
                res_signatureHex = ''090102'',
                res_aggregatePublicKey = \<lparr>bytes = ArrayOf [9]\<rparr>,
                res_aggregatePublicKeyHex = ''09'',
                res_isValid = True\<rparr>)"
    by blast
  from a b have "message signing = [104, 105]" and "bytes aggregate = BufferOf [9]"
    by (auto simp: ss ag)
  with c have "\<exists>signature :: Signature.
      verifySignature stubThresholdSig (bytesToArray (bytes (sig_r signature)))
        (bytesToArray (bytes (sig_s signature))) (Array_from_buffer [104, 105])
        (bytesToArray (BufferOf [9])) = Inr True"
    by auto
  then show ?thesis
    using readyToAggregate_result by (simp add: Array_from_buffer_def bytesToArray_def)
qed

section \<open>The party agent\<close>

text \<open>
  C4 (as amended). \<open>register\<close> has no already-registered check: its outcome
  does not depend on the stored \<open>keyId\<close>, it fails exactly when the key
  creation of the native module fails, and when that succeeds the stored
  \<open>keyId\<close> becomes the handle of the fresh key, also on a repeated call.
\<close>

theorem register_ignores_registration:
  "fst (register P N (this\<lparr>keyId := k\<rparr>) w) = fst (register P N this w) \<and>
   ((\<exists>e. fst (register P N this w) = Inl e) \<longleftrightarrow>
      (\<exists>e. fst (createPubKey N (getPartyIndex P this) w) = Inl e)) \<and>
   (\<forall>created. fst (createPubKey N (getPartyIndex P this) w) = Inr created \<longrightarrow>
      keyId (fst (snd (register P N this w))) = Some (kg_keyId created))"
  by (auto simp: register_def initialize_def getPartyIndex_def split: prod.splits sum.splits)

theorem register_ignores_registration_witness:
  "fst (register codeUnitPlatform stubThresholdSig
         ((new_MPCService ''party-0'')\<lparr>keyId := Some ''key-0''\<rparr>) (1, []))
     = fst (register codeUnitPlatform stubThresholdSig (new_MPCService ''party-0'') (1, [])) \<and>
   keyId (fst (snd (register codeUnitPlatform stubThresholdSig
         ((new_MPCService ''party-0'')\<lparr>keyId := Some ''key-0''\<rparr>) (1, []))))
     = Some ''key-1''"
  using register_ignores_registration [where P = codeUnitPlatform and N = stubThresholdSig
      and this = "new_MPCService ''party-0''" and k = "Some ''key-0''" and w = "(1, [])"]
    register_ignores_registration [where P = codeUnitPlatform and N = stubThresholdSig
      and this = "(new_MPCService ''party-0'')\<lparr>keyId := Some ''key-0''\<rparr>"
      and k = "Some ''key-0''" and w = "(1, [])"]
  by (simp add: register_def initialize_def createPubKey_def stubThresholdSig_def
      new_MPCService_def getPartyIndex_def codeUnitPlatform_def Number_toString_small
      digitChar_def)

text \<open>
  The claim as stated fails: a second \<open>register\<close> on a registered agent
  succeeds and replaces \<open>key-0\<close> by \<open>key-1\<close>.
\<close>

theorem register_twice_counterexample:
  "fst (register codeUnitPlatform stubThresholdSig (new_MPCService ''party-0'') (0, []))
     = Inr \<lparr>reg_partyId = ''party-0'', reg_publicKey = \<lparr>bytes = ArrayOf [5]\<rparr>,
            reg_publicKeyHex = ''05''\<rparr> \<and>
   snd (register codeUnitPlatform stubThresholdSig (new_MPCService ''party-0'') (0, []))
     = (\<lparr>service_partyId = ''party-0'', keyId = Some ''key-0'', sharedKey = None\<rparr>, (1, [])) \<and>
   register codeUnitPlatform stubThresholdSig
       \<lparr>service_partyId = ''party-0'', keyId = Some ''key-0'', sharedKey = None\<rparr> (1, [])
     = (Inr \<lparr>reg_partyId = ''party-0'', reg_publicKey = \<lparr>bytes = ArrayOf [5]\<rparr>,
            reg_publicKeyHex = ''05''\<rparr>,
        \<lparr>service_partyId = ''party-0'', keyId = Some ''key-1'', sharedKey = None\<rparr>, (2, []))"
  by (simp add: register_def initialize_def createPubKey_def stubThresholdSig_def
      new_MPCService_def getPartyIndex_def codeUnitPlatform_def serializeForHttp_def
      toHex_def octets_def hexDigit_def Buffer_from_array_def Number_toString_small
      digitChar_def)

end
